theory Spec2Isabelle
  imports Main "HOL-Library.Word" "HOL-Library.Multiset"
begin

unbundle bit_operations_syntax

section \<open>Data model of contracts/utils.go\<close>

text \<open>
  Go's \<^verbatim>\<open>*big.Int\<close> is an unbounded integer (\<^typ>\<open>int\<close>), \<^verbatim>\<open>uint64\<close> a 64-bit word,
  \<^verbatim>\<open>common.Address\<close> a 20-byte array (a 160-bit word) and \<^verbatim>\<open>common.Hash\<close> a 32-byte
  array (kept as its byte list). A Go map is a partial function.
  \<^verbatim>\<open>big.Int.Div\<close> is Euclidean division; every divisor in this file is checked or known to
  be positive, where Euclidean division and \<^term>\<open>(div)\<close> on \<^typ>\<open>int\<close> agree.
\<close>

type_synonym byte = "8 word"
type_synonym uint64 = "64 word"
type_synonym address = "160 word"
type_synonym hash = "byte list"

record rewardLog =
  Sign :: uint64
  Reward :: int

subsection \<open>CalculateRewardForSigner\<close>

text \<open>
  The loop over \<^verbatim>\<open>signers\<close> touches, for each key, only that key's entry of
  \<^verbatim>\<open>signers\<close> and of \<^verbatim>\<open>resultSigners\<close>, so it is written per key. The function returns
  the updated \<^verbatim>\<open>signers\<close> (whose \<^verbatim>\<open>Reward\<close> fields it overwrites) and \<^verbatim>\<open>resultSigners\<close>.
  \<^verbatim>\<open>json.Marshal\<close> of a map from addresses to \<^verbatim>\<open>rewardLog\<close> cannot fail, so the error
  result is always nil.
\<close>

definition calcReward :: "int \<Rightarrow> uint64 \<Rightarrow> rewardLog \<Rightarrow> int" where
  "calcReward chainReward totalSigner rLog = (chainReward div uint totalSigner) * uint (Sign rLog)"

definition CalculateRewardForSigner ::
  "int \<Rightarrow> (address \<rightharpoonup> rewardLog) \<Rightarrow> uint64 \<Rightarrow> (address \<rightharpoonup> rewardLog) \<times> (address \<rightharpoonup> int)" where
  "CalculateRewardForSigner chainReward signers totalSigner =
     (if totalSigner > 0 then
        (\<lambda>signer. map_option (\<lambda>rLog. rLog\<lparr>Reward := calcReward chainReward totalSigner rLog\<rparr>) (signers signer),
         \<lambda>signer. map_option (calcReward chainReward totalSigner) (signers signer))
      else (signers, Map.empty))"


subsection \<open>GetRewardBalancesRate\<close>

text \<open>
  The state database is read through four accessors of \<^verbatim>\<open>core/state\<close>, which is not part
  of the sources: they are the fields of a record.
\<close>

record stateDB =
  GetCandidateOwner :: "address \<Rightarrow> address"
  GetCandidateCap :: "address \<Rightarrow> int"
  GetVoters :: "address \<Rightarrow> address list"
  GetVoterCap :: "address \<Rightarrow> address \<Rightarrow> int"

text \<open>
  Modelled from the spec: the constants \<^verbatim>\<open>common.RewardMasterPercent\<close> and
  \<^verbatim>\<open>common.RewardSyncPercent\<close> are not part of the sources; the spec gives them as 50
  and 40, and so do the comments of the function (\<^verbatim>\<open>//50\<close>, \<^verbatim>\<open>//40\<close>). The voter
  and foundation percentages and the upgrade block, constants of the same package, are
  parameters.
\<close>

definition RewardMasterPercent :: int where
  "RewardMasterPercent = 50"

definition RewardSyncPercent :: int where
  "RewardSyncPercent = 40"

record commonConsts =
  RewardVoterPercent :: nat
  RewardFoundationPercent :: int
  TIP2019Block :: uint64

definition targetValue :: int where
  "targetValue = 50000000000000000000000"

definition GetCandidatesOwnerBySigner :: "stateDB \<Rightarrow> address \<Rightarrow> address" where
  "GetCandidatesOwnerBySigner state signerAddr = GetCandidateOwner state signerAddr"

text \<open>The first voter loop: the caps of the voters and their total.\<close>

fun voterCapsLoop ::
  "commonConsts \<Rightarrow> stateDB \<Rightarrow> address \<Rightarrow> uint64 \<Rightarrow> address list \<Rightarrow>
   int \<times> (address \<rightharpoonup> int) \<Rightarrow> int \<times> (address \<rightharpoonup> int)" where
  "voterCapsLoop c state masterAddr blockNumber [] acc = acc"
| "voterCapsLoop c state masterAddr blockNumber (voteAddr # voters) (totalCap, voterCaps) =
     (if voterCaps voteAddr \<noteq> None \<and> TIP2019Block c \<le> blockNumber
      then voterCapsLoop c state masterAddr blockNumber voters (totalCap, voterCaps)
      else (let voterCap = GetVoterCap state masterAddr voteAddr
            in voterCapsLoop c state masterAddr blockNumber voters
                 (totalCap + voterCap, voterCaps(voteAddr \<mapsto> voterCap))))"

text \<open>
  The second voter loop ranges over the map \<^verbatim>\<open>voterCaps\<close>; each of its keys is visited
  once and changes only its own balance, so the loop is written per address.
\<close>

definition payVoters ::
  "int \<Rightarrow> int \<Rightarrow> (address \<rightharpoonup> int) \<Rightarrow> (address \<rightharpoonup> int) \<Rightarrow> (address \<rightharpoonup> int)" where
  "payVoters totalVoterReward totalCap voterCaps balances =
     (\<lambda>addr. case voterCaps addr of
        None \<Rightarrow> balances addr
      | Some voteCap \<Rightarrow>
          (if voteCap > 0
           then (let rcap = (totalVoterReward * voteCap) div totalCap
                 in (case balances addr of
                       Some b \<Rightarrow> Some (b + rcap)
                     | None \<Rightarrow> Some rcap))
           else balances addr))"

text \<open>
  \<^verbatim>\<open>owner\<close> is looked up and printed, and not used again. \<^verbatim>\<open>json.Marshal\<close> of a map
  from addresses to big integers cannot fail, so the function always returns the balances
  with a nil error.
\<close>

definition GetRewardBalancesRate ::
  "commonConsts \<Rightarrow> address \<Rightarrow> stateDB \<Rightarrow> address \<Rightarrow> int \<Rightarrow> uint64 \<Rightarrow> (address \<rightharpoonup> int)" where
  "GetRewardBalancesRate c foundationWalletAddr state masterAddr totalReward blockNumber =
     (let owner = GetCandidatesOwnerBySigner state masterAddr;
          stakeCap = GetCandidateCap state masterAddr;
          rewardPercent = (if stakeCap = targetValue then RewardMasterPercent else RewardSyncPercent);
          reward = (totalReward * rewardPercent) div 100;
          balances = [masterAddr \<mapsto> reward];
          voters = GetVoters state masterAddr;
          balances =
            (if length voters > 0
             then (let totalVoterReward = (totalReward * int (RewardVoterPercent c)) div 100;
                       (totalCap, voterCaps) =
                          voterCapsLoop c state masterAddr blockNumber voters (0, Map.empty)
                   in if totalCap > 0
                      then payVoters totalVoterReward totalCap voterCaps balances
                      else balances)
             else balances);
          foundationReward = (totalReward * RewardFoundationPercent c) div 100
      in balances(foundationWalletAddr \<mapsto> foundationReward))"


subsection \<open>GenM2FromRandomize\<close>

text \<open>
  \<^verbatim>\<open>math/rand\<close> is Go's standard library: its generator is a parameter. \<^verbatim>\<open>rand.Seed\<close>
  puts the process-wide generator into a state fixed by the seed, and \<^verbatim>\<open>rand.Intn\<close>
  returns a number and the next state. The state of the process-wide generator is passed
  in and returned.
\<close>

record 'g mathRand =
  Seed :: "64 word \<Rightarrow> 'g"
  Intn :: "'g \<Rightarrow> nat \<Rightarrow> nat \<times> 'g"

text \<open>
  \<^verbatim>\<open>make\<close> panics on a negative length (\<^term>\<open>None\<close>); \<^verbatim>\<open>int64\<close> arithmetic wraps.
  The limit that the memory of the machine puts on the length is left out.
\<close>

definition NewSlice :: "64 word \<Rightarrow> 64 word \<Rightarrow> 64 word \<Rightarrow> 64 word list option" where
  "NewSlice start end step =
     (if sint (end - start) < 0 then None
      else Some (map (\<lambda>i. start + of_nat i * step) [0..<nat (sint (end - start))]))"

text \<open>
  The shuffle loop. The counter \<^term>\<open>Suc i\<close> stands for the value \<^term>\<open>i\<close> of the loop
  variable, the counter \<^term>\<open>0::nat\<close> for \<^verbatim>\<open>i = -1\<close>, where the loop ends. An index out of
  range panics (\<^term>\<open>None\<close>). The error result of \<^verbatim>\<open>GenM2FromRandomize\<close> is always
  nil. \<^verbatim>\<open>rand.Seed\<close> replaces the state \<^verbatim>\<open>g0\<close> the generator was in before the call.
\<close>

fun shuffleLoop ::
  "('g \<Rightarrow> nat \<Rightarrow> nat \<times> 'g) \<Rightarrow> nat \<Rightarrow> 64 word list \<Rightarrow> 64 word list \<Rightarrow> 'g \<Rightarrow>
   (64 word list \<times> 'g) option" where
  "shuffleLoop intn 0 blockValidator randIndexs g = Some (randIndexs, g)"
| "shuffleLoop intn (Suc i) blockValidator randIndexs g =
     (let blockLength = (if int (length blockValidator) - 1 \<le> 1 then 1
                         else length blockValidator - 1);
          (randomIndex, g') = intn g blockLength
      in if randomIndex < length blockValidator \<and> i < length blockValidator
            \<and> i < length randIndexs
         then (let temp = blockValidator ! randomIndex;
                   blockValidator = blockValidator[randomIndex := blockValidator ! i];
                   blockValidator = blockValidator[i := temp];
                   blockValidator = take i blockValidator @ drop (i + 1) blockValidator
               in shuffleLoop intn i blockValidator (randIndexs[i := temp]) g')
         else None)"

definition GenM2FromRandomize ::
  "'g mathRand \<Rightarrow> 'g \<Rightarrow> 64 word list \<Rightarrow> 64 word \<Rightarrow> (64 word list \<times> 'g) option" where
  "GenM2FromRandomize R g0 randomizes lenSigners =
     (case NewSlice 0 lenSigners 1 of
        None \<Rightarrow> None
      | Some blockValidator \<Rightarrow>
          (if sint lenSigners < 0 then None
           else (let randIndexs = replicate (nat (sint lenSigners)) (0 :: 64 word);
                     total = foldl (+) 0 randomizes;
                     g = Seed R total
                 in shuffleLoop (Intn R) (length blockValidator) blockValidator randIndexs g)))"

text \<open>A small generator for running the shuffle on examples: it counts up from the seed.\<close>

definition counterRand :: "nat mathRand" where
  "counterRand = \<lparr>Seed = (\<lambda>s. unat s), Intn = (\<lambda>g n. (g mod n, g + 1))\<rparr>"

subsection \<open>Encrypt and Decrypt\<close>

text \<open>
  A Go string is a sequence of bytes. The AES block function, the base64 codec and the
  random source are Go's standard library: \<^verbatim>\<open>aesBlock key b\<close> is the encryption of the
  block \<^verbatim>\<open>b\<close> under \<^verbatim>\<open>key\<close>, \<^verbatim>\<open>DecodeString\<close> gives the bytes that
  \<^verbatim>\<open>base64.URLEncoding.DecodeString\<close> returns (\<^verbatim>\<open>Decrypt\<close> drops its error), and the
  initialization vector read from \<^verbatim>\<open>crypto/rand\<close> is an argument, \<^term>\<open>None\<close> when the
  read fails.
\<close>

type_synonym gostring = "byte list"

record stdlib =
  aesBlock :: "byte list \<Rightarrow> byte list \<Rightarrow> byte list"
  EncodeToString :: "byte list \<Rightarrow> gostring"
  DecodeString :: "gostring \<Rightarrow> byte list"

definition aesBlockSize :: nat where
  "aesBlockSize = 16"

text \<open>\<^verbatim>\<open>aes.NewCipher\<close> accepts keys of 16, 24 and 32 bytes only.\<close>

definition validKey :: "byte list \<Rightarrow> bool" where
  "validKey key = (length key = 16 \<or> length key = 24 \<or> length key = 32)"

definition xorBytes :: "byte list \<Rightarrow> byte list \<Rightarrow> byte list" where
  "xorBytes src ks = map (\<lambda>(x, y). x XOR y) (zip src ks)"

text \<open>
  Cipher feedback mode (\<^verbatim>\<open>cipher.NewCFBEncrypter\<close>, \<^verbatim>\<open>NewCFBDecrypter\<close> and their
  \<^verbatim>\<open>XORKeyStream\<close>): each block of the input is xor-ed with the encryption of the
  previous ciphertext block, the first with the encryption of the IV.
\<close>

function cfbEncrypt :: "(byte list \<Rightarrow> byte list) \<Rightarrow> byte list \<Rightarrow> byte list \<Rightarrow> byte list" where
  "cfbEncrypt E next [] = []"
| "cfbEncrypt E next (x # xs) =
     (let dst = xorBytes (take aesBlockSize (x # xs)) (E next)
      in dst @ cfbEncrypt E dst (drop aesBlockSize (x # xs)))"
  by pat_completeness auto
termination
  by (relation "measure (\<lambda>(E, next, src). length src)") (auto simp: aesBlockSize_def)

function cfbDecrypt :: "(byte list \<Rightarrow> byte list) \<Rightarrow> byte list \<Rightarrow> byte list \<Rightarrow> byte list" where
  "cfbDecrypt E next [] = []"
| "cfbDecrypt E next (x # xs) =
     (let src = take aesBlockSize (x # xs)
      in xorBytes src (E next) @ cfbDecrypt E src (drop aesBlockSize (x # xs)))"
  by pat_completeness auto
termination
  by (relation "measure (\<lambda>(E, next, src). length src)") (auto simp: aesBlockSize_def)

definition Encrypt :: "stdlib \<Rightarrow> byte list option \<Rightarrow> byte list \<Rightarrow> gostring \<Rightarrow> gostring" where
  "Encrypt S ivRead key text =
     (if \<not> validKey key then []
      else (case ivRead of
              None \<Rightarrow> []
            | Some iv \<Rightarrow> EncodeToString S (iv @ cfbEncrypt (aesBlock S key) iv text)))"

definition Decrypt :: "stdlib \<Rightarrow> byte list \<Rightarrow> gostring \<Rightarrow> gostring" where
  "Decrypt S key cryptoText =
     (let ciphertext = DecodeString S cryptoText
      in if \<not> validKey key then []
         else if length ciphertext < aesBlockSize then []
         else (let iv = take aesBlockSize ciphertext;
                   ciphertext = drop aesBlockSize ciphertext
               in cfbDecrypt (aesBlock S key) iv ciphertext))"

text \<open>A block function and a codec for running the two on examples.\<close>

definition toyStdlib :: stdlib where
  "toyStdlib = \<lparr>aesBlock = (\<lambda>key b. take 16 (map (\<lambda>(x, y). x + y + 1) (zip key b) @ replicate 16 0)),
                EncodeToString = (\<lambda>bs. 1 # bs),
                DecodeString = tl\<rparr>"


subsection \<open>Transactions and their builders\<close>

type_synonym error = string

text \<open>
  \<^verbatim>\<open>txFrom\<close> is the cached sender that \<^verbatim>\<open>tx.From()\<close> points to, nil on a transaction
  whose sender has not been derived.
\<close>

record transaction =
  txNonce :: uint64
  txTo :: address
  txAmount :: int
  txGasLimit :: uint64
  txGasPrice :: int
  txData :: "byte list"
  txFrom :: "address option"

definition NewTransaction ::
  "uint64 \<Rightarrow> address \<Rightarrow> int \<Rightarrow> uint64 \<Rightarrow> int \<Rightarrow> byte list \<Rightarrow> transaction" where
  "NewTransaction nonce to amount gasLimit gasPrice data =
     \<lparr>txNonce = nonce, txTo = to, txAmount = amount, txGasLimit = gasLimit,
      txGasPrice = gasPrice, txData = data, txFrom = None\<rparr>"

text \<open>
  The constants of package \<^verbatim>\<open>common\<close> that the transaction code reads; the method
  selectors are given as the bytes \<^verbatim>\<open>common.Hex2Bytes\<close> makes of them, the contract
  addresses as \<^verbatim>\<open>common.HexToAddress\<close> makes them.
\<close>

record txConsts =
  HexSignMethod :: "byte list"
  HexSetSecret :: "byte list"
  HexSetOpening :: "byte list"
  BlockSigners :: address
  RandomizeSMC :: address
  EpocBlockSecret :: uint64
  EpocBlockOpening :: uint64
  EpocBlockRandomize :: uint64

text \<open>
  Modelled from the spec: \<^verbatim>\<open>common.LeftPadBytes\<close>, which is not part of the sources, pads
  on the left with zero bytes up to the given length and leaves a longer slice as it is.
\<close>

definition LeftPadBytes :: "byte list \<Rightarrow> nat \<Rightarrow> byte list" where
  "LeftPadBytes bs l =
     (if l \<le> length bs then bs else replicate (l - length bs) 0 @ bs)"

text \<open>\<^verbatim>\<open>big.Int.Bytes\<close>: the big-endian bytes of a number, none for zero.\<close>

function bigBytes :: "nat \<Rightarrow> byte list" where
  "bigBytes n = (if n = 0 then [] else bigBytes (n div 256) @ [of_nat (n mod 256)])"
  by pat_completeness auto
termination
  by (relation "measure id") auto

text \<open>\<^verbatim>\<open>big.Int.String\<close> of a number that is not negative: its decimal digits.\<close>

function decimalString :: "nat \<Rightarrow> gostring" where
  "decimalString n =
     (if n < 10 then [48 + of_nat n] else decimalString (n div 10) @ [48 + of_nat (n mod 10)])"
  by pat_completeness auto
termination
  by (relation "measure id") auto

definition CreateTxSign :: "txConsts \<Rightarrow> nat \<Rightarrow> hash \<Rightarrow> uint64 \<Rightarrow> address \<Rightarrow> transaction" where
  "CreateTxSign T blockNumber blockHash nonce blockSigner =
     (let data = HexSignMethod T;
          inputData = data @ LeftPadBytes (bigBytes blockNumber) 32;
          inputData = inputData @ LeftPadBytes blockHash 32
      in NewTransaction nonce blockSigner 0 200000 0 inputData)"

text \<open>
  What one call draws from the random sources: the key of \<^verbatim>\<open>RandStringByte(32)\<close>, the
  number \<^verbatim>\<open>rand.Intn\<close> returns after seeding with the clock, and the IV read in
  \<^verbatim>\<open>Encrypt\<close>.
\<close>

record entropy =
  drawnKey :: "byte list"
  drawnSecret :: nat
  drawnIv :: "byte list option"

text \<open>
  \<^verbatim>\<open>rand.Intn\<close> panics on a bound that is not positive (\<^term>\<open>None\<close>); the error result
  is always nil.
\<close>

definition BuildTxSecretRandomize ::
  "stdlib \<Rightarrow> txConsts \<Rightarrow> entropy \<Rightarrow> uint64 \<Rightarrow> address \<Rightarrow> uint64 \<Rightarrow> byte list \<Rightarrow>
   transaction option" where
  "BuildTxSecretRandomize S T ent nonce randomizeAddr epocNumber randomizeKey =
     (if sint epocNumber \<le> 0 then None
      else (let data = HexSetSecret T;
                secretNumb = drawnSecret ent;
                secrets = [secretNumb];
                sizeOfArray = 32;
                arrSizeOfSecrets = LeftPadBytes (bigBytes sizeOfArray) 32;
                arrLengthOfSecrets = LeftPadBytes (bigBytes (length secrets)) 32;
                inputData = data @ arrSizeOfSecrets;
                inputData = inputData @ arrLengthOfSecrets;
                inputData = foldl (\<lambda>inputData secret.
                    (let encryptSecret = Encrypt S (drawnIv ent) randomizeKey (decimalString secret)
                     in inputData @ LeftPadBytes encryptSecret sizeOfArray)) inputData secrets
            in Some (NewTransaction nonce randomizeAddr 0 200000 0 inputData)))"

definition BuildTxOpeningRandomize ::
  "txConsts \<Rightarrow> uint64 \<Rightarrow> address \<Rightarrow> byte list \<Rightarrow> transaction" where
  "BuildTxOpeningRandomize T nonce randomizeAddr randomizeKey =
     (let data = HexSetOpening T;
          inputData = data @ randomizeKey
      in NewTransaction nonce randomizeAddr 0 200000 0 inputData)"

subsection \<open>CreateTransactionSign\<close>

text \<open>
  The collaborators: the account manager with its wallets, the transaction pool (a state
  \<^typ>\<open>'p\<close> with its two operations; \<^verbatim>\<open>AddLocal\<close> returns the next state of the pool also
  when it fails, so the nonce read after a failure may differ from the one before), the
  chain configuration, the block and the local key-value store.
\<close>

record account =
  Address :: address

record wallet =
  Accounts :: "account list"
  SignTx :: "account \<Rightarrow> transaction \<Rightarrow> int \<Rightarrow> error + transaction"

record manager =
  Wallets :: "wallet list"
  Find :: "account \<Rightarrow> wallet option"

record 'p txPool =
  GetNonce :: "'p \<Rightarrow> address \<Rightarrow> uint64"
  AddLocal :: "'p \<Rightarrow> transaction \<Rightarrow> error option \<times> 'p"

record S2PoSConfig =
  Epoch :: uint64

record chainConfig =
  ChainId :: int
  S2PoS :: "S2PoSConfig option"

record block =
  Number :: nat
  Hash :: hash
  Transactions :: "transaction list"

type_synonym database = "byte list \<rightharpoonup> byte list"

text \<open>
  What a call does to the pool and the store is kept as a list of events, in order: every
  submission with the transaction, its result (and for the sign transaction the nonce it
  was built with and the pool it left), and every write to the store.
\<close>

datatype 'p event =
    SignAttempt uint64 transaction "error option" 'p
  | SecretSubmit transaction "error option"
  | OpeningSubmit transaction "error option"
  | PutKey "byte list"
  | DeleteKey

datatype outcome = Panic | Return "error option"

definition randomizeKeyName :: "byte list" where
  "randomizeKeyName = [114, 97, 110, 100, 111, 109, 105, 122, 101, 75, 101, 121]"

text \<open>
  Finding the active account. With no wallet at all \<^verbatim>\<open>wallet\<close> stays nil and
  \<^verbatim>\<open>account\<close> is the zero account.
\<close>

definition findAccount :: "manager \<Rightarrow> address \<Rightarrow> wallet option \<times> account" where
  "findAccount M eb =
     (let etherbaseAccount = \<lparr>Address = eb\<rparr>
      in case Wallets M of
           [] \<Rightarrow> (None, \<lparr>Address = 0\<rparr>)
         | w0 # ws \<Rightarrow>
             (case Find M etherbaseAccount of
                Some w \<Rightarrow> (Some w, etherbaseAccount)
              | None \<Rightarrow> (Some w0, (case Accounts w0 of [] \<Rightarrow> \<lparr>Address = 0\<rparr> | a # as \<Rightarrow> a))))"

text \<open>
  The retry loop of the sign transaction. It returns the error it ends with (\<^term>\<open>None\<close>
  when the transaction entered the pool), the pool and the events.
\<close>

function signLoop ::
  "'p txPool \<Rightarrow> txConsts \<Rightarrow> wallet \<Rightarrow> account \<Rightarrow> chainConfig \<Rightarrow> block \<Rightarrow>
   nat \<Rightarrow> uint64 \<Rightarrow> 'p \<Rightarrow> 'p event list \<Rightarrow> error option \<times> 'p \<times> 'p event list" where
  "signLoop P T wallet account cfg blk retryCount nonce pool evs =
     (let tx = CreateTxSign T (Number blk) (Hash blk) nonce (BlockSigners T)
      in case SignTx wallet account tx (ChainId cfg) of
           Inl err \<Rightarrow> (Some err, pool, evs)
         | Inr txSigned \<Rightarrow>
             (case AddLocal P pool txSigned of
                (None, pool') \<Rightarrow> (None, pool', evs @ [SignAttempt nonce txSigned None pool'])
              | (Some err, pool') \<Rightarrow>
                  (let newNonce = GetNonce P pool' (Address account);
                       evs' = evs @ [SignAttempt nonce txSigned (Some err) pool']
                   in if retryCount \<ge> 10 then (Some err, pool', evs')
                      else signLoop P T wallet account cfg blk (retryCount + 1) newNonce pool' evs')))"
  by pat_completeness auto
termination
  by (relation "measure (\<lambda>(P, T, wallet, account, cfg, blk, retryCount, nonce, pool, evs). 10 - retryCount)")
     auto

text \<open>
  The two randomize steps. Each returns \<^term>\<open>None\<close> when the call goes on after it, or the
  outcome the call ends with, and the pool, the store and the events.
\<close>

definition secretStep ::
  "'p txPool \<Rightarrow> txConsts \<Rightarrow> stdlib \<Rightarrow> entropy \<Rightarrow> wallet \<Rightarrow> account \<Rightarrow> chainConfig \<Rightarrow>
   uint64 \<Rightarrow> bool \<Rightarrow> uint64 \<Rightarrow> 'p \<Rightarrow> database \<Rightarrow> 'p event list \<Rightarrow>
   outcome option \<times> 'p \<times> database \<times> 'p event list" where
  "secretStep P T S ent wallet account cfg epoch exist checkNumber pool chainDb evs =
     (if \<not> exist \<and> checkNumber > 0 \<and> EpocBlockSecret T \<le> checkNumber
          \<and> EpocBlockOpening T > checkNumber
      then (let randomizeKeyValue = drawnKey ent;
                nonce = GetNonce P pool (Address account)
            in case BuildTxSecretRandomize S T ent nonce (RandomizeSMC T) epoch randomizeKeyValue of
                 None \<Rightarrow> (Some Panic, pool, chainDb, evs)
               | Some tx \<Rightarrow>
                   (case SignTx wallet account tx (ChainId cfg) of
                      Inl err \<Rightarrow> (Some (Return (Some err)), pool, chainDb, evs)
                    | Inr txSigned \<Rightarrow>
                        (case AddLocal P pool txSigned of
                           (Some err, pool') \<Rightarrow>
                             (Some (Return (Some err)), pool', chainDb,
                              evs @ [SecretSubmit txSigned (Some err)])
                         | (None, pool') \<Rightarrow>
                             (None, pool', chainDb(randomizeKeyName \<mapsto> randomizeKeyValue),
                              evs @ [SecretSubmit txSigned None, PutKey randomizeKeyValue]))))
      else (None, pool, chainDb, evs))"

definition openingStep ::
  "'p txPool \<Rightarrow> txConsts \<Rightarrow> wallet \<Rightarrow> account \<Rightarrow> chainConfig \<Rightarrow>
   bool \<Rightarrow> uint64 \<Rightarrow> 'p \<Rightarrow> database \<Rightarrow> 'p event list \<Rightarrow>
   outcome option \<times> 'p \<times> database \<times> 'p event list" where
  "openingStep P T wallet account cfg exist checkNumber pool chainDb evs =
     (if exist \<and> checkNumber > 0 \<and> EpocBlockOpening T \<le> checkNumber
          \<and> EpocBlockRandomize T \<ge> checkNumber
      then (case chainDb randomizeKeyName of
              None \<Rightarrow> (Some (Return (Some ''not found'')), pool, chainDb, evs)
            | Some randomizeKeyValue \<Rightarrow>
                (let nonce = GetNonce P pool (Address account);
                     tx = BuildTxOpeningRandomize T nonce (RandomizeSMC T) randomizeKeyValue
                 in case SignTx wallet account tx (ChainId cfg) of
                      Inl err \<Rightarrow> (Some (Return (Some err)), pool, chainDb, evs)
                    | Inr txSigned \<Rightarrow>
                        (case AddLocal P pool txSigned of
                           (Some err, pool') \<Rightarrow>
                             (Some (Return (Some err)), pool', chainDb,
                              evs @ [OpeningSubmit txSigned (Some err)])
                         | (None, pool') \<Rightarrow>
                             (None, pool', chainDb(randomizeKeyName := None),
                              evs @ [OpeningSubmit txSigned None, DeleteKey]))))
      else (None, pool, chainDb, evs))"

text \<open>
  The whole call, under the lock \<^verbatim>\<open>TxSignMu\<close>. Calling \<^verbatim>\<open>SignTx\<close> on the nil wallet
  and taking the block number modulo an epoch of zero panic. \<^verbatim>\<open>exist\<close> is read from the
  store once, before both steps.
\<close>

definition CreateTransactionSign ::
  "'p txPool \<Rightarrow> txConsts \<Rightarrow> stdlib \<Rightarrow> entropy \<Rightarrow> chainConfig \<Rightarrow> 'p \<Rightarrow> manager \<Rightarrow> block \<Rightarrow>
   database \<Rightarrow> address \<Rightarrow> outcome \<times> 'p \<times> database \<times> 'p event list" where
  "CreateTransactionSign P T S ent cfg pool M blk chainDb eb =
     (case S2PoS cfg of
        None \<Rightarrow> (Return None, pool, chainDb, [])
      | Some s2 \<Rightarrow>
          (case findAccount M eb of
             (None, account) \<Rightarrow> (Panic, pool, chainDb, [])
           | (Some wallet, account) \<Rightarrow>
               (let nonce = GetNonce P pool (Address account)
                in case signLoop P T wallet account cfg blk 1 nonce pool [] of
                     (Some err, pool1, evs1) \<Rightarrow> (Return (Some err), pool1, chainDb, evs1)
                   | (None, pool1, evs1) \<Rightarrow>
                       (if Epoch s2 = 0 then (Panic, pool1, chainDb, evs1)
                        else (let blockNumber = (of_nat (Number blk) :: uint64);
                                  checkNumber = blockNumber mod Epoch s2;
                                  exist = (chainDb randomizeKeyName \<noteq> None)
                              in case secretStep P T S ent wallet account cfg (Epoch s2) exist
                                        checkNumber pool1 chainDb evs1 of
                                   (Some out, pool2, chainDb2, evs2) \<Rightarrow> (out, pool2, chainDb2, evs2)
                                 | (None, pool2, chainDb2, evs2) \<Rightarrow>
                                     (case openingStep P T wallet account cfg exist checkNumber
                                             pool2 chainDb2 evs2 of
                                        (Some out, pool3, chainDb3, evs3) \<Rightarrow> (out, pool3, chainDb3, evs3)
                                      | (None, pool3, chainDb3, evs3) \<Rightarrow>
                                          (Return None, pool3, chainDb3, evs3)))))))"


text \<open>Reading the events of a call.\<close>

fun isSignAttempt :: "'p event \<Rightarrow> bool" where
  "isSignAttempt (SignAttempt nonce tx r pool) = True"
| "isSignAttempt e = False"

fun isSecretSubmit :: "'p event \<Rightarrow> bool" where
  "isSecretSubmit (SecretSubmit tx r) = True"
| "isSecretSubmit e = False"

fun isOpeningSubmit :: "'p event \<Rightarrow> bool" where
  "isOpeningSubmit (OpeningSubmit tx r) = True"
| "isOpeningSubmit e = False"

fun submitError :: "'p event \<Rightarrow> error option" where
  "submitError (SignAttempt nonce tx r pool) = r"
| "submitError (SecretSubmit tx r) = r"
| "submitError (OpeningSubmit tx r) = r"
| "submitError e = None"

text \<open>
  A chain of sign attempts for an account, starting from a nonce: every attempt but the
  last failed, the first was built with the starting nonce, and each later one with the
  nonce the pool gave for the account right after the failure before it.
\<close>

fun attemptChain :: "'p txPool \<Rightarrow> address \<Rightarrow> uint64 \<Rightarrow> 'p event list \<Rightarrow> bool" where
  "attemptChain P a nonce [] = True"
| "attemptChain P a nonce (SignAttempt n tx r pool' # rest) =
     (n = nonce \<and>
      (if rest = [] then True else r \<noteq> None \<and> attemptChain P a (GetNonce P pool' a) rest))"
| "attemptChain P a nonce (e # rest) = False"

definition checkNumberOf :: "chainConfig \<Rightarrow> block \<Rightarrow> uint64" where
  "checkNumberOf cfg blk =
     (case S2PoS cfg of None \<Rightarrow> 0 | Some s2 \<Rightarrow> (of_nat (Number blk) :: uint64) mod Epoch s2)"

text \<open>
  What a call may leave in the events after its sign attempts: nothing, or one secret
  submission (followed by the write of the key when it succeeded), or one opening
  submission (followed by the deletion of the key when it succeeded), each under the
  condition of its step.
\<close>

definition randomizeTail ::
  "txConsts \<Rightarrow> chainConfig \<Rightarrow> block \<Rightarrow> database \<Rightarrow> database \<Rightarrow> 'p event list \<Rightarrow> bool" where
  "randomizeTail T cfg blk chainDb chainDb' extra =
     (extra = []
      \<or> (chainDb randomizeKeyName = None \<and> 0 < checkNumberOf cfg blk
           \<and> EpocBlockSecret T \<le> checkNumberOf cfg blk
           \<and> checkNumberOf cfg blk < EpocBlockOpening T
           \<and> ((\<exists>tx e. extra = [SecretSubmit tx (Some e)])
                \<or> (\<exists>tx k. extra = [SecretSubmit tx None, PutKey k])))
      \<or> (chainDb randomizeKeyName \<noteq> None \<and> 0 < checkNumberOf cfg blk
           \<and> EpocBlockOpening T \<le> checkNumberOf cfg blk
           \<and> checkNumberOf cfg blk \<le> EpocBlockRandomize T
           \<and> ((\<exists>tx e. extra = [OpeningSubmit tx (Some e)])
                \<or> (\<exists>tx. extra = [OpeningSubmit tx None, DeleteKey]
                       \<and> chainDb' randomizeKeyName = None))))"

text \<open>Collaborators for running a call on examples: a pool that refuses every
  transaction, and one that accepts every transaction.\<close>

definition toyWallet :: wallet where
  "toyWallet = \<lparr>Accounts = [\<lparr>Address = 5\<rparr>], SignTx = (\<lambda>account tx chainId. Inr tx)\<rparr>"

definition toyManager :: manager where
  "toyManager = \<lparr>Wallets = [toyWallet], Find = (\<lambda>account. None)\<rparr>"

definition toyConsts :: txConsts where
  "toyConsts = \<lparr>HexSignMethod = [227, 65, 234, 164], HexSetSecret = [52, 208, 56, 64],
     HexSetOpening = [216, 64, 227, 209], BlockSigners = 137, RandomizeSMC = 144,
     EpocBlockSecret = 800, EpocBlockOpening = 850, EpocBlockRandomize = 900\<rparr>"

definition toyConfig :: chainConfig where
  "toyConfig = \<lparr>ChainId = 50, S2PoS = Some \<lparr>Epoch = 900\<rparr>\<rparr>"

definition toyEntropy :: entropy where
  "toyEntropy = \<lparr>drawnKey = replicate 32 97, drawnSecret = 7, drawnIv = Some (replicate 16 3)\<rparr>"

definition fullPool :: "nat txPool" where
  "fullPool = \<lparr>GetNonce = (\<lambda>pool a. of_nat pool), AddLocal = (\<lambda>pool tx. (Some ''nonce too low'', pool + 1))\<rparr>"

definition openPool :: "nat txPool" where
  "openPool = \<lparr>GetNonce = (\<lambda>pool a. of_nat pool), AddLocal = (\<lambda>pool tx. (None, pool + 1))\<rparr>"

subsection \<open>GetRewardForCheckpoint\<close>

text \<open>
  The collaborators. A header carries its parent hash, its number and the hash
  \<^verbatim>\<open>header.Hash()\<close> computes. The chain reader returns nil (\<^term>\<open>None\<close>) for a header or
  block it does not have. The consensus engine keeps a cache of signing transactions:
  its state \<^typ>\<open>'e\<close> is passed along, and the two caching calls return the signing
  transactions among the given ones and the next state. \<^typ>\<open>'r\<close> stands for the receipts
  of a block. \<^verbatim>\<open>utils.GetMasternodesFromCheckpointHeader\<close> and the constant
  \<^verbatim>\<open>common.MergeSignRange\<close>, which are not part of the sources, are kept with the engine.
\<close>

record header =
  ParentHash :: hash
  HeaderNumber :: nat
  HeaderHash :: hash

record chainReader =
  GetHeader :: "hash \<Rightarrow> uint64 \<Rightarrow> header option"
  GetBlock :: "hash \<Rightarrow> uint64 \<Rightarrow> block option"
  Config :: chainConfig
  IsTIPSigning :: "nat \<Rightarrow> bool"
  IsTIP2019 :: "int \<Rightarrow> bool"

record ('e, 'r) engine =
  GetCachedSigningTxs :: "'e \<Rightarrow> hash \<Rightarrow> transaction list option"
  CacheSigningTxs :: "'e \<Rightarrow> hash \<Rightarrow> transaction list \<Rightarrow> transaction list \<times> 'e"
  CacheNoneTIPSigningTxs :: "'e \<Rightarrow> header \<Rightarrow> transaction list \<Rightarrow> 'r \<Rightarrow> transaction list \<times> 'e"
  GetBlockReceipts :: "hash \<Rightarrow> uint64 \<Rightarrow> 'r"
  GetMasternodesFromCheckpointHeader :: "header \<Rightarrow> address list"
  MergeSignRange :: uint64

text \<open>A call ends in a nil dereference or another run-time panic, or it returns.\<close>

datatype 'a res = Panicked | Ok 'a

text \<open>
  \<^verbatim>\<open>common.BytesToHash\<close> keeps the last 32 bytes and pads a shorter slice on the left.
\<close>

definition BytesToHash :: "byte list \<Rightarrow> hash" where
  "BytesToHash b = LeftPadBytes (drop (length b - 32) b) 32"

text \<open>
  The inner loop of the walk: every signing transaction names, in the last 32 bytes of its
  data, the hash of the block it signs; its sender is appended to the signers of that
  hash. Slicing data shorter than 32 bytes and dereferencing a nil sender panic
  (\<^term>\<open>None\<close>). A Go map read at a key it does not hold gives the zero value, so
  \<^verbatim>\<open>data\<close> is a function that is \<^term>\<open>[]\<close> by default.
\<close>

fun collectSigners ::
  "transaction list \<Rightarrow> (hash \<Rightarrow> address list) \<Rightarrow> (hash \<Rightarrow> address list) option" where
  "collectSigners [] data = Some data"
| "collectSigners (tx # txs) data =
     (if length (txData tx) < 32 then None
      else (let blkHash = BytesToHash (drop (length (txData tx) - 32) (txData tx))
            in case txFrom tx of
                 None \<Rightarrow> None
               | Some from \<Rightarrow> collectSigners txs (data(blkHash := data blkHash @ [from]))))"

record 'e walkState =
  wsMapBlkHash :: "uint64 \<Rightarrow> hash"
  wsData :: "hash \<Rightarrow> address list"
  wsEngine :: "'e"

text \<open>
  One iteration of the walk-back, from the header of the iteration before: \<^term>\<open>None\<close> when
  it panics. No result of the reader is checked for nil. A nil header is dereferenced at
  the latest by \<^verbatim>\<open>header.Number\<close> (on a cache miss) or by the next
  \<^verbatim>\<open>header.ParentHash\<close> (on a cache hit), and nothing returns in between, so the call
  panics once the reader has yielded a nil header. Modelled from the spec: the type of a
  block is not part of the sources; \<^verbatim>\<open>block.Transactions()\<close> reads a field of the block,
  so a nil block panics there (a missing block is fatal).
\<close>

definition walkStep ::
  "chainReader \<Rightarrow> ('e, 'r) engine \<Rightarrow> header \<Rightarrow> uint64 \<Rightarrow> 'e walkState \<Rightarrow>
   (header \<times> 'e walkState) option" where
  "walkStep chain c header i st =
     (case GetHeader chain (ParentHash header) i of
        None \<Rightarrow> None
      | Some header \<Rightarrow>
          (let mapBlkHash = (wsMapBlkHash st)(i := HeaderHash header)
           in case (case GetCachedSigningTxs c (wsEngine st) (HeaderHash header) of
                      Some signData \<Rightarrow> Some (signData, wsEngine st)
                    | None \<Rightarrow>
                        (case GetBlock chain (HeaderHash header) i of
                           None \<Rightarrow> None
                         | Some block \<Rightarrow>
                             (let txs = Transactions block
                              in if \<not> IsTIPSigning chain (HeaderNumber header)
                                 then (let receipts = GetBlockReceipts c (HeaderHash header) i
                                       in Some (CacheNoneTIPSigningTxs c (wsEngine st) header txs receipts))
                                 else Some (CacheSigningTxs c (wsEngine st) (HeaderHash header) txs)))) of
                None \<Rightarrow> None
              | Some (txs, e) \<Rightarrow>
                  (case collectSigners txs (wsData st) of
                     None \<Rightarrow> None
                   | Some data \<Rightarrow>
                       Some (header, \<lparr>wsMapBlkHash = mapBlkHash, wsData = data, wsEngine = e\<rparr>))))"

text \<open>
  The walk-back loop \<^verbatim>\<open>for i := ...; i >= startBlockNumber; i--\<close> on \<^verbatim>\<open>uint64\<close>. With
  \<^verbatim>\<open>startBlockNumber = 0\<close> its condition always holds, so the loop need not end: not
  returning is the value \<^term>\<open>None\<close>.
\<close>

partial_function (option) walkBack ::
  "chainReader \<Rightarrow> ('e, 'r) engine \<Rightarrow> header \<Rightarrow> uint64 \<Rightarrow> uint64 \<Rightarrow> 'e walkState \<Rightarrow>
   (header \<times> 'e walkState) res option" where
  "walkBack chain c header i startBlockNumber st =
     (if i \<ge> startBlockNumber
      then (case walkStep chain c header i st of
              None \<Rightarrow> Some Panicked
            | Some (header', st') \<Rightarrow> walkBack chain c header' (i - 1) startBlockNumber st')
      else Some (Ok (header, st)))"

declare walkBack.simps [code]

text \<open>
  The state of the walk after a number of iterations, \<^term>\<open>None\<close> when the walk does not
  get that far.
\<close>

fun walkIter ::
  "chainReader \<Rightarrow> ('e, 'r) engine \<Rightarrow> uint64 \<Rightarrow> nat \<Rightarrow> header \<times> uint64 \<times> 'e walkState \<Rightarrow>
   (header \<times> uint64 \<times> 'e walkState) option" where
  "walkIter chain c startBlockNumber 0 s = Some s"
| "walkIter chain c startBlockNumber (Suc n) (header, i, st) =
     (if i \<ge> startBlockNumber
      then (case walkStep chain c header i st of
              None \<Rightarrow> None
            | Some (header', st') \<Rightarrow> walkIter chain c startBlockNumber n (header', i - 1, st'))
      else None)"

text \<open>
  The tally. The masternodes among the senders that signed a block, without duplicates
  (the map \<^verbatim>\<open>addrSigners\<close>, kept as the list of its keys):
\<close>

fun creditIfSigned :: "address \<Rightarrow> address list \<Rightarrow> address list \<Rightarrow> address list" where
  "creditIfSigned masternode [] addrSigners = addrSigners"
| "creditIfSigned masternode (addr # addrs) addrSigners =
     (if addr = masternode
      then (if addr \<in> set addrSigners then addrSigners else addrSigners @ [addr])
      else creditIfSigned masternode addrs addrSigners)"

fun signersOfBlock :: "address list \<Rightarrow> address list \<Rightarrow> address list \<Rightarrow> address list" where
  "signersOfBlock [] addrs addrSigners = addrSigners"
| "signersOfBlock (masternode # masternodes) addrs addrSigners =
     signersOfBlock masternodes addrs (creditIfSigned masternode addrs addrSigners)"

text \<open>
  The loop over \<^verbatim>\<open>addrSigners\<close>: one more signature for each of its keys, and one more
  in the total. The keys are distinct, so the order of the range plays no part.
\<close>

fun creditSigners ::
  "address list \<Rightarrow> (address \<rightharpoonup> rewardLog) \<times> uint64 \<Rightarrow> (address \<rightharpoonup> rewardLog) \<times> uint64" where
  "creditSigners [] acc = acc"
| "creditSigners (addr # addrs) (signers, totalSigner) =
     creditSigners addrs
       ((case signers addr of
           Some rLog \<Rightarrow> signers(addr \<mapsto> rLog\<lparr>Sign := Sign rLog + 1\<rparr>)
         | None \<Rightarrow> signers(addr \<mapsto> \<lparr>Sign = 1, Reward = 0\<rparr>)),
        totalSigner + 1)"

text \<open>The position-in-epoch rule, for an epoch that is not zero.\<close>

definition eligible :: "chainReader \<Rightarrow> ('e, 'r) engine \<Rightarrow> uint64 \<Rightarrow> uint64 \<Rightarrow> bool" where
  "eligible chain c epoch i =
     (i mod epoch < MergeSignRange c \<or> i mod MergeSignRange c = 0 \<or> \<not> IsTIP2019 chain (sint i))"

definition creditBlock ::
  "address list \<Rightarrow> (hash \<Rightarrow> address list) \<Rightarrow> (uint64 \<Rightarrow> hash) \<Rightarrow>
   (address \<rightharpoonup> rewardLog) \<times> uint64 \<Rightarrow> uint64 \<Rightarrow> (address \<rightharpoonup> rewardLog) \<times> uint64" where
  "creditBlock masternodes data mapBlkHash acc i =
     (let addrs = data (mapBlkHash i)
      in if length addrs > 0
         then creditSigners (signersOfBlock masternodes addrs []) acc
         else acc)"

text \<open>
  The tally loop \<^verbatim>\<open>for i := startBlockNumber; i <= endBlockNumber; i++\<close> on \<^verbatim>\<open>uint64\<close>.
  \<^verbatim>\<open>i % epoch\<close> panics when the epoch is zero. With \<^verbatim>\<open>endBlockNumber\<close> the largest
  \<^verbatim>\<open>uint64\<close> the loop does not end.
\<close>

partial_function (option) tallyLoop ::
  "chainReader \<Rightarrow> ('e, 'r) engine \<Rightarrow> uint64 \<Rightarrow> address list \<Rightarrow> (hash \<Rightarrow> address list) \<Rightarrow>
   (uint64 \<Rightarrow> hash) \<Rightarrow> uint64 \<Rightarrow> uint64 \<Rightarrow> (address \<rightharpoonup> rewardLog) \<times> uint64 \<Rightarrow>
   ((address \<rightharpoonup> rewardLog) \<times> uint64) res option" where
  "tallyLoop chain c epoch masternodes data mapBlkHash i endBlockNumber acc =
     (if i \<le> endBlockNumber
      then (if epoch = 0 then Some Panicked
            else tallyLoop chain c epoch masternodes data mapBlkHash (i + 1) endBlockNumber
                   (if eligible chain c epoch i
                    then creditBlock masternodes data mapBlkHash acc i
                    else acc))
      else Some (Ok acc))"

declare tallyLoop.simps [code]

definition zeroHash :: hash where
  "zeroHash = replicate 32 0"

text \<open>
  The whole function. \<^verbatim>\<open>totalSigner\<close> is the counter the caller passes by pointer; the
  result is the map of signers with the error, which is always nil, the counter and the
  state of the engine's cache. Modelled from the spec:
  \<^verbatim>\<open>utils.GetMasternodesFromCheckpointHeader\<close> is not part of the sources; it reads the
  masternodes out of the header's extra data, so a nil header at \<^verbatim>\<open>prevCheckpoint\<close>
  panics there (a missing header is fatal). A chain without the S2PoS configuration
  panics when the epoch is read.
\<close>

definition GetRewardForCheckpoint ::
  "('e, 'r) engine \<Rightarrow> 'e \<Rightarrow> chainReader \<Rightarrow> header \<Rightarrow> uint64 \<Rightarrow> uint64 \<Rightarrow>
   ((address \<rightharpoonup> rewardLog) \<times> error option \<times> uint64 \<times> 'e) res option" where
  "GetRewardForCheckpoint c e chain header rCheckpoint totalSigner =
     (let number = (of_nat (HeaderNumber header) :: uint64);
          prevCheckpoint = number - (rCheckpoint * 2);
          startBlockNumber = prevCheckpoint + 1;
          endBlockNumber = startBlockNumber + rCheckpoint - 1;
          signers = Map.empty;
          st = \<lparr>wsMapBlkHash = (\<lambda>i. zeroHash), wsData = (\<lambda>h. []), wsEngine = e\<rparr>
      in case walkBack chain c header (prevCheckpoint + (rCheckpoint * 2) - 1) startBlockNumber st of
           None \<Rightarrow> None
         | Some Panicked \<Rightarrow> Some Panicked
         | Some (Ok (header, st)) \<Rightarrow>
             (case GetHeader chain (ParentHash header) prevCheckpoint of
                None \<Rightarrow> Some Panicked
              | Some header \<Rightarrow>
                  (let masternodes = GetMasternodesFromCheckpointHeader c header
                   in case S2PoS (Config chain) of
                        None \<Rightarrow> Some Panicked
                      | Some s2 \<Rightarrow>
                          (case tallyLoop chain c (Epoch s2) masternodes (wsData st) (wsMapBlkHash st)
                                  startBlockNumber endBlockNumber (signers, totalSigner) of
                             None \<Rightarrow> None
                           | Some Panicked \<Rightarrow> Some Panicked
                           | Some (Ok (signers, totalSigner)) \<Rightarrow>
                               Some (Ok (signers, None, totalSigner, wsEngine st))))))"

text \<open>
  The checkpoint before the previous one and the reward window
  [prevCheckpoint + 1, prevCheckpoint + rCheckpoint], in \<^verbatim>\<open>uint64\<close> arithmetic; a window
  whose end lies before its start holds no block.
\<close>

definition window :: "uint64 \<Rightarrow> uint64 \<Rightarrow> uint64 list" where
  "window s e = (if s \<le> e then map of_nat [unat s..<Suc (unat e)] else [])"

definition prevCheckpointOf :: "header \<Rightarrow> uint64 \<Rightarrow> uint64" where
  "prevCheckpointOf header rCheckpoint = (of_nat (HeaderNumber header) :: uint64) - (rCheckpoint * 2)"

definition rewardWindow :: "header \<Rightarrow> uint64 \<Rightarrow> uint64 list" where
  "rewardWindow header rCheckpoint =
     window (prevCheckpointOf header rCheckpoint + 1) (prevCheckpointOf header rCheckpoint + rCheckpoint)"

text \<open>The state in which the walk-back starts.\<close>

definition walkStart :: "'e \<Rightarrow> header \<Rightarrow> uint64 \<Rightarrow> header \<times> uint64 \<times> 'e walkState" where
  "walkStart e header rCheckpoint =
     (header, prevCheckpointOf header rCheckpoint + (rCheckpoint * 2) - 1,
      \<lparr>wsMapBlkHash = (\<lambda>i. zeroHash), wsData = (\<lambda>h. []), wsEngine = e\<rparr>)"

text \<open>
  The reader yields nothing for what the function asks next in a state of the walk: the
  header of block i, or (the header is there and its signing transactions are not cached)
  the block itself, or, when the loop is over, the header of prevCheckpoint.
\<close>

definition missingAt ::
  "chainReader \<Rightarrow> ('e, 'r) engine \<Rightarrow> uint64 \<Rightarrow> uint64 \<Rightarrow> header \<times> uint64 \<times> 'e walkState \<Rightarrow> bool" where
  "missingAt chain c startBlockNumber prevCheckpoint s =
     (case s of (header, i, st) \<Rightarrow>
        if i \<ge> startBlockNumber
        then (case GetHeader chain (ParentHash header) i of
                None \<Rightarrow> True
              | Some h \<Rightarrow> GetCachedSigningTxs c (wsEngine st) (HeaderHash h) = None
                          \<and> GetBlock chain (HeaderHash h) i = None)
        else GetHeader chain (ParentHash header) prevCheckpoint = None)"

text \<open>
  A chain for running the function on examples: every header but that of block x is
  there; block 20 holds a signature of block 19, block 21 three signatures of block 20
  (two by the same sender), block 23 a signature of block 22. The masternodes are 7 and 9.
\<close>

definition toyHash :: "uint64 \<Rightarrow> hash" where
  "toyHash i = replicate 32 (ucast i)"

definition toySignTx :: "uint64 \<Rightarrow> address \<Rightarrow> transaction" where
  "toySignTx i sender =
     \<lparr>txNonce = 0, txTo = 137, txAmount = 0, txGasLimit = 200000, txGasPrice = 0,
      txData = [227, 65, 234, 164] @ replicate 32 0 @ toyHash i, txFrom = Some sender\<rparr>"

definition toyChainWithout :: "uint64 \<Rightarrow> chainReader" where
  "toyChainWithout x =
     \<lparr>GetHeader = (\<lambda>h i. if i = x then None
          else Some \<lparr>ParentHash = toyHash (i - 1), HeaderNumber = unat i, HeaderHash = toyHash i\<rparr>),
      GetBlock = (\<lambda>h i. Some \<lparr>Number = unat i, Hash = h,
          Transactions = (if i = 20 then [toySignTx 19 7]
                          else if i = 21 then [toySignTx 20 7, toySignTx 20 8, toySignTx 20 7]
                          else if i = 23 then [toySignTx 22 7] else [])\<rparr>),
      Config = \<lparr>ChainId = 50, S2PoS = Some \<lparr>Epoch = 10\<rparr>\<rparr>,
      IsTIPSigning = (\<lambda>n. True), IsTIP2019 = (\<lambda>n. True)\<rparr>"

definition toyEngine :: "(unit, unit) engine" where
  "toyEngine =
     \<lparr>GetCachedSigningTxs = (\<lambda>e h. None), CacheSigningTxs = (\<lambda>e h txs. (txs, e)),
      CacheNoneTIPSigningTxs = (\<lambda>e h txs r. (txs, e)), GetBlockReceipts = (\<lambda>h i. ()),
      GetMasternodesFromCheckpointHeader = (\<lambda>h. [7, 9]), MergeSignRange = 2\<rparr>"

definition toyHeader :: header where
  "toyHeader = \<lparr>ParentHash = toyHash 23, HeaderNumber = 24, HeaderHash = toyHash 24\<rparr>"

section \<open>Reward split among signers\<close>

text \<open>
  C3. For every chainReward and signer map with totalSigner > 0, every signer of the map is
  assigned exactly floor(chainReward / totalSigner) * signCount, and no other address is
  assigned anything; the division comes before the multiplication, so the rewards can sum
  to less than chainReward: with chainReward = 1000, totalSigner = 3 and one signer of
  count 3 the only reward is 999.
\<close>

theorem CalculateRewardForSigner_share:
  "(0 < totalSigner \<longrightarrow>
      snd (CalculateRewardForSigner chainReward signers totalSigner) a =
        (case signers a of None \<Rightarrow> None
         | Some rLog \<Rightarrow> Some ((chainReward div uint totalSigner) * uint (Sign rLog))))
   \<and> snd (CalculateRewardForSigner 1000 [7 \<mapsto> \<lparr>Sign = 3, Reward = 0\<rparr>] 3) =
        [7 \<mapsto> 999]
   \<and> (\<Sum>a \<in> dom (snd (CalculateRewardForSigner 1000 [7 \<mapsto> \<lparr>Sign = 3, Reward = 0\<rparr>] 3)).
         the (snd (CalculateRewardForSigner 1000 [7 \<mapsto> \<lparr>Sign = 3, Reward = 0\<rparr>] 3) a)) < 1000"
proof -
  let ?res = "snd (CalculateRewardForSigner 1000 [7 \<mapsto> \<lparr>Sign = 3, Reward = 0\<rparr>] 3)"
  have ex: "?res = [7 \<mapsto> 999]"
    by (auto simp: CalculateRewardForSigner_def calcReward_def fun_eq_iff)
  have general: "0 < totalSigner \<longrightarrow>
      snd (CalculateRewardForSigner chainReward signers totalSigner) a =
        (case signers a of None \<Rightarrow> None
         | Some rLog \<Rightarrow> Some ((chainReward div uint totalSigner) * uint (Sign rLog)))"
    by (simp add: CalculateRewardForSigner_def calcReward_def split: option.splits)
  have "(\<Sum>a \<in> dom ?res. the (?res a)) < 1000"
    unfolding ex by simp
  with ex general show ?thesis by blast
qed

theorem CalculateRewardForSigner_share_witness:
  "(0::uint64) < 4 \<and>
   snd (CalculateRewardForSigner 10 [1 \<mapsto> \<lparr>Sign = 3, Reward = 0\<rparr>, 2 \<mapsto> \<lparr>Sign = 1, Reward = 0\<rparr>] 4) 1 = Some 6"
  using CalculateRewardForSigner_share [of 4 10 "[1 \<mapsto> \<lparr>Sign = 3, Reward = 0\<rparr>, 2 \<mapsto> \<lparr>Sign = 1, Reward = 0\<rparr>]" 1]
  by simp

section \<open>The validator shuffle\<close>

lemma shuffleLoop_perm:
  assumes "\<forall>g n. 0 < n \<longrightarrow> fst (intn g n) < n"
  shows "length bv = k \<Longrightarrow> k \<le> length ri \<Longrightarrow>
     \<exists>out g'. shuffleLoop intn k bv ri g = Some (out, g') \<and> length out = length ri
        \<and> mset (take k out) = mset bv \<and> drop k out = drop k ri"
proof (induction k arbitrary: bv ri g)
  case 0
  then show ?case by simp
next
  case (Suc i)
  obtain r g1 where rg: "intn g (if int (length bv) - 1 \<le> 1 then 1 else length bv - 1) = (r, g1)"
    by (cases "intn g (if int (length bv) - 1 \<le> 1 then 1 else length bv - 1)") auto
  have "fst (intn g (if int (length bv) - 1 \<le> 1 then 1 else length bv - 1)) < (if int (length bv) - 1 \<le> 1 then 1 else length bv - 1)"
    using assms by simp
  with rg Suc.prems have r: "r < Suc i" by (auto split: if_splits)
  let ?bv2 = "bv[r := bv ! i, i := bv ! r]"
  let ?bv3 = "take i ?bv2 @ drop (i + 1) ?bv2"
  have l2: "length ?bv2 = Suc i" using Suc.prems by simp
  have bv3: "?bv3 = take i ?bv2" using l2 by simp
  have li: "length ?bv3 = i" using l2 by simp
  from Suc.IH[OF li, of "ri[i := bv ! r]" g1] Suc.prems
  obtain out g' where o: "shuffleLoop intn i ?bv3 (ri[i := bv ! r]) g1 = Some (out, g')"
     "length out = length ri" "mset (take i out) = mset ?bv3" "drop i out = drop i (ri[i := bv ! r])"
    by auto
  have step: "shuffleLoop intn (Suc i) bv ri g = Some (out, g')"
    using rg r Suc.prems o(1) by (simp add: Let_def)
  have oi: "out ! i = bv ! r" 
    using o(4) o(2) Suc.prems
    by (metis Suc_le_lessD length_list_update nth_list_update_eq nth_via_drop Cons_nth_drop_Suc)
  have "mset ?bv2 = mset bv" using mset_swap[of i bv r] r Suc.prems by simp
  moreover have "?bv2 = take i ?bv2 @ [?bv2 ! i]" using l2
    by (metis lessI take_Suc_conv_app_nth take_all order_refl)
  moreover have "?bv2 ! i = bv ! r" using Suc.prems by simp
  ultimately have m: "mset bv = mset (take i ?bv2) + {#bv ! r#}"
    by (metis mset.simps(2) mset_append mset.simps(1) union_mset_add_mset_right add.right_neutral)
  have "take (Suc i) out = take i out @ [out ! i]"
    using o(2) Suc.prems by (simp add: take_Suc_conv_app_nth)
  then have "mset (take (Suc i) out) = mset bv"
    using o(3) oi m bv3 by simp
  moreover have "drop (Suc i) out = drop (Suc i) ri"
    using o(4) by (metis drop_Suc drop_update_cancel lessI tl_drop)
  ultimately show ?case using step o(2) by blast
qed

lemma sint_of_nat_small:
  "k < 2 ^ 63 \<Longrightarrow> sint (of_nat k :: 64 word) = int k"
  by (simp add: signed_of_nat signed_take_bit_int_eq_self)

lemma of_nat_sint_nonneg:
  "0 \<le> sint (w :: 64 word) \<Longrightarrow> of_nat (nat (sint w)) = w"
  by simp

lemma sint_lt63: "sint (n :: 64 word) < 2 ^ 63"
  using sint_lt [of n] by simp

lemma distinct_iota:
  "distinct (map (of_nat :: nat \<Rightarrow> 64 word) [0..<nat (sint (n :: 64 word))])"
proof -
  have "inj_on (of_nat :: nat \<Rightarrow> 64 word) {0..<nat (sint n)}"
  proof (rule inj_onI)
    fix a b assume a: "a \<in> {0..<nat (sint n)}" and b: "b \<in> {0..<nat (sint n)}"
      and eq: "(of_nat a :: 64 word) = of_nat b"
    from a b sint_lt63 [of n] have "a < 2 ^ 63" "b < 2 ^ 63" by auto
    then have sa: "sint (of_nat a :: 64 word) = int a" and sb: "sint (of_nat b :: 64 word) = int b"
      by (simp_all add: sint_of_nat_small)
    from eq have "sint (of_nat a :: 64 word) = sint (of_nat b :: 64 word)"
      by (rule arg_cong)
    then have "int a = int b" by (simp only: sa sb)
    then show "a = b" by (simp only: of_nat_eq_iff)
  qed
  then show ?thesis by (simp add: distinct_map)
qed

lemma set_iota:
  "set (map (of_nat :: nat \<Rightarrow> 64 word) [0..<nat (sint (n :: 64 word))]) = {w. 0 \<le> sint w \<and> sint w < sint n}"
proof (intro set_eqI iffI)
  fix w :: "64 word"
  assume "w \<in> set (map of_nat [0..<nat (sint n)])"
  then obtain k where k: "k < nat (sint n)" "w = of_nat k" by auto
  with sint_lt63 [of n] have "k < 2 ^ 63" by auto
  then have "sint w = int k" using k by (simp add: sint_of_nat_small)
  with k show "w \<in> {w. 0 \<le> sint w \<and> sint w < sint n}" by auto
next
  fix w :: "64 word"
  assume "w \<in> {w. 0 \<le> sint w \<and> sint w < sint n}"
  then have "nat (sint w) < nat (sint n)" "of_nat (nat (sint w)) = w"
    by (auto simp: of_nat_sint_nonneg)
  then show "w \<in> set (map of_nat [0..<nat (sint n)])"
    by (metis atLeastLessThan_iff image_eqI le0 set_map set_upt)
qed

lemma NewSlice_iota:
  "0 \<le> sint n \<Longrightarrow> NewSlice 0 n 1 = Some (map of_nat [0..<nat (sint n)])"
  by (simp add: NewSlice_def)

text \<open>
  C4. For every n >= 1 and every list of secrets, GenM2FromRandomize returns (it does not
  panic) a list of length n in which every integer of [0, n) occurs exactly once, for any
  generator whose Intn keeps to its range [0, k) on a positive bound k.
\<close>

theorem GenM2FromRandomize_permutation:
  assumes contract: "\<forall>g k. 0 < k \<longrightarrow> fst (Intn R g k) < k"
    and n: "1 \<le> sint lenSigners"
  shows "\<exists>out g'. GenM2FromRandomize R g0 randomizes lenSigners = Some (out, g')
     \<and> length out = nat (sint lenSigners)
     \<and> mset out = mset (map of_nat [0..<nat (sint lenSigners)])
     \<and> distinct out
     \<and> set out = {w. 0 \<le> sint w \<and> sint w < sint lenSigners}"
proof -
  let ?n = "nat (sint lenSigners)"
  let ?bv = "map of_nat [0..<?n] :: 64 word list"
  let ?ri = "replicate ?n (0 :: 64 word)"
  have ns: "NewSlice 0 lenSigners 1 = Some ?bv"
    using n by (simp add: NewSlice_iota)
  have "length ?bv = ?n" "?n \<le> length ?ri" by simp_all
  from shuffleLoop_perm [OF contract this, of "Seed R (foldl (+) 0 randomizes)"]
  obtain out g' where o:
    "shuffleLoop (Intn R) ?n ?bv ?ri (Seed R (foldl (+) 0 randomizes)) = Some (out, g')"
    "length out = length ?ri" "mset (take ?n out) = mset ?bv"
    by blast
  have run: "GenM2FromRandomize R g0 randomizes lenSigners = Some (out, g')"
    using n o(1) by (simp add: GenM2FromRandomize_def ns Let_def)
  have len: "length out = ?n" using o(2) by simp
  then have m: "mset out = mset ?bv" using o(3) by simp
  have d: "distinct out"
    using m distinct_iota [of lenSigners] by (metis mset_eq_imp_distinct_iff)
  have "set out = set ?bv" using m by (rule mset_eq_setD)
  then have st: "set out = {w. 0 \<le> sint w \<and> sint w < sint lenSigners}"
    by (simp only: set_iota)
  from run len m d st show ?thesis by blast
qed

theorem GenM2FromRandomize_permutation_witness:
  "1 \<le> sint (3 :: 64 word)
   \<and> GenM2FromRandomize counterRand 0 [3, 4] 3 = Some ([2, 0, 1], 10)
   \<and> mset [2, 0, 1 :: 64 word] = mset (map of_nat [0..<nat (sint (3 :: 64 word))])"
proof -
  have c: "\<forall>g k. 0 < k \<longrightarrow> fst (Intn counterRand g k) < k"
    by (simp add: counterRand_def)
  have n: "1 \<le> sint (3 :: 64 word)" by simp
  have run: "GenM2FromRandomize counterRand 0 [3, 4] 3 = Some ([2, 0, 1], 10)"
    by code_simp
  from GenM2FromRandomize_permutation [OF c n, of 0 "[3, 4]"] run n
  show ?thesis by auto
qed

text \<open>
  C5. The output of GenM2FromRandomize is fixed by the secrets and the validator count: it
  does not depend on the state the process-wide generator was in before the call, and it
  depends on the secrets only through their sum, the seed.
\<close>

theorem GenM2FromRandomize_deterministic:
  "foldl (+) 0 randomizes = foldl (+) 0 randomizes' \<Longrightarrow>
   GenM2FromRandomize R g0 randomizes lenSigners = GenM2FromRandomize R g0' randomizes' lenSigners"
  by (simp add: GenM2FromRandomize_def Let_def split: option.splits)

theorem GenM2FromRandomize_deterministic_witness:
  "foldl (+) 0 [1, 2] = foldl (+) 0 [3 :: 64 word]
   \<and> GenM2FromRandomize counterRand 0 [1, 2] 4 = GenM2FromRandomize counterRand 77 [3] 4
   \<and> GenM2FromRandomize counterRand 77 [3] 4 = Some ([1, 2, 3, 0], 7)"
proof -
  have s: "foldl (+) 0 [1, 2] = foldl (+) 0 [3 :: 64 word]" by simp
  have run: "GenM2FromRandomize counterRand 77 [3] 4 = Some ([1, 2, 3, 0], 7)"
    by code_simp
  from GenM2FromRandomize_deterministic [OF s, of counterRand 0 4 77] s run
  show ?thesis by simp
qed

section \<open>The commit-reveal cipher\<close>

lemma xorBytes_twice:
  "length src \<le> length ks \<Longrightarrow> xorBytes (xorBytes src ks) ks = src"
proof (induction src arbitrary: ks)
  case Nil then show ?case by (simp add: xorBytes_def)
next
  case (Cons a src)
  then obtain k ks' where "ks = k # ks'" by (cases ks) auto
  moreover have "(a XOR k) XOR k = a" by (simp add: xor.assoc)
  ultimately show ?case using Cons by (simp add: xorBytes_def)
qed

lemma length_xorBytes: "length (xorBytes src ks) = min (length src) (length ks)"
  by (simp add: xorBytes_def)

lemma cfbDecrypt_unfold:
  "src \<noteq> [] \<Longrightarrow> cfbDecrypt E n src =
     xorBytes (take aesBlockSize src) (E n) @ cfbDecrypt E (take aesBlockSize src) (drop aesBlockSize src)"
  by (cases src) (simp_all add: Let_def)

lemma cfb_roundtrip:
  "(\<forall>b. length (E b) = aesBlockSize) \<Longrightarrow> cfbDecrypt E iv (cfbEncrypt E iv text) = text"
proof (induction E iv "text" rule: cfbEncrypt.induct)
  case (1 E n)
  then show ?case by simp
next
  case (2 E n x xs)
  let ?src = "x # xs"
  let ?blk = "take aesBlockSize ?src"
  let ?rest = "drop aesBlockSize ?src"
  let ?dst = "xorBytes ?blk (E n)"
  have lenE: "length (E n) = aesBlockSize" using "2.prems" by simp
  have lblk: "length ?blk \<le> aesBlockSize" by simp
  have ldst: "length ?dst = length ?blk"
    unfolding length_xorBytes lenE using lblk by (rule min_absorb1)
  have ne: "?dst \<noteq> []" using ldst by (auto simp: aesBlockSize_def)
  have IH: "cfbDecrypt E ?dst (cfbEncrypt E ?dst ?rest) = ?rest"
    using "2.IH" [OF refl "2.prems"] .
  have enc: "cfbEncrypt E n ?src = ?dst @ cfbEncrypt E ?dst ?rest"
    by (simp add: Let_def)
  have short: "length ?blk < aesBlockSize \<Longrightarrow> ?rest = []" by auto
  have tk: "take aesBlockSize (?dst @ cfbEncrypt E ?dst ?rest) = ?dst"
  proof (cases "length ?blk < aesBlockSize")
    case True
    then have "cfbEncrypt E ?dst ?rest = []" using short by simp
    then show ?thesis using ldst lblk by simp
  next
    case False
    then have "length ?dst = aesBlockSize" using ldst lblk by linarith
    then show ?thesis by simp
  qed
  have dr: "drop aesBlockSize (?dst @ cfbEncrypt E ?dst ?rest) = cfbEncrypt E ?dst ?rest"
  proof (cases "length ?blk < aesBlockSize")
    case True
    then have "cfbEncrypt E ?dst ?rest = []" using short by simp
    then show ?thesis using ldst lblk by simp
  next
    case False
    then have "length ?dst = aesBlockSize" using ldst lblk by linarith
    then show ?thesis by simp
  qed
  have xb: "xorBytes ?dst (E n) = ?blk"
    using lenE lblk by (simp only: xorBytes_twice)
  have "cfbDecrypt E n (?dst @ cfbEncrypt E ?dst ?rest) =
        xorBytes ?dst (E n) @ cfbDecrypt E ?dst (cfbEncrypt E ?dst ?rest)"
    using ne by (simp only: cfbDecrypt_unfold [of "?dst @ cfbEncrypt E ?dst ?rest" E n] tk dr append_is_Nil_conv simp_thms)
  also have "\<dots> = ?blk @ ?rest" by (simp only: xb IH)
  also have "\<dots> = ?src" by (rule append_take_drop_id)
  finally show ?case by (simp only: enc)
qed

text \<open>
  C6. For every valid AES key (16, 24 or 32 bytes) and every string s, decrypting under the
  same key what Encrypt returned gives s back, whenever Encrypt did not return the empty
  string. The standard library is used through its contracts: the block function returns
  a block, decoding undoes encoding, and a successful read of the IV fills the 16 bytes.
\<close>

theorem Decrypt_Encrypt:
  assumes key: "validKey key"
    and block: "\<forall>k b. length (aesBlock S k b) = aesBlockSize"
    and codec: "\<forall>bs. DecodeString S (EncodeToString S bs) = bs"
    and iv: "\<forall>iv. ivRead = Some iv \<longrightarrow> length iv = aesBlockSize"
    and ok: "Encrypt S ivRead key s \<noteq> []"
  shows "Decrypt S key (Encrypt S ivRead key s) = s"
proof -
  from ok key obtain iv0 where r: "ivRead = Some iv0"
    by (cases ivRead) (simp_all add: Encrypt_def)
  with iv have l: "length iv0 = aesBlockSize" by simp
  let ?ct = "iv0 @ cfbEncrypt (aesBlock S key) iv0 s"
  have e: "Encrypt S ivRead key s = EncodeToString S ?ct"
    using key r by (simp add: Encrypt_def)
  have d: "DecodeString S (EncodeToString S ?ct) = ?ct"
    using codec by simp
  have rt: "cfbDecrypt (aesBlock S key) iv0 (cfbEncrypt (aesBlock S key) iv0 s) = s"
    using block by (simp add: cfb_roundtrip)
  show ?thesis
    unfolding e Decrypt_def d using key l rt by (simp add: Let_def)
qed

theorem Decrypt_Encrypt_witness:
  "validKey (replicate 16 7)
   \<and> Encrypt toyStdlib (Some (replicate 16 3)) (replicate 16 7) [104, 105] \<noteq> []
   \<and> Decrypt toyStdlib (replicate 16 7)
        (Encrypt toyStdlib (Some (replicate 16 3)) (replicate 16 7) [104, 105]) = [104, 105]"
proof -
  have key: "validKey (replicate 16 7)" by (simp add: validKey_def)
  have block: "\<forall>k b. length (aesBlock toyStdlib k b) = aesBlockSize"
    by (auto simp: toyStdlib_def aesBlockSize_def)
  have codec: "\<forall>bs. DecodeString toyStdlib (EncodeToString toyStdlib bs) = bs"
    by (simp add: toyStdlib_def)
  have iv: "\<forall>iv. Some (replicate 16 (3 :: byte)) = Some iv \<longrightarrow> length iv = aesBlockSize"
    by (auto simp: aesBlockSize_def)
  have ok: "Encrypt toyStdlib (Some (replicate 16 3)) (replicate 16 7) [104, 105] \<noteq> []"
    by (simp add: Encrypt_def key toyStdlib_def)
  from Decrypt_Encrypt [OF key block codec iv ok] key ok show ?thesis by simp
qed

section \<open>Submitting the sign and randomize transactions\<close>

lemma signLoop_events:
  "signLoop P T w a cfg blk rc nonce pool evs0 = (res, pool', evs) \<Longrightarrow> 1 \<le> rc \<Longrightarrow> rc \<le> 10 \<Longrightarrow>
   \<exists>atts. evs = evs0 @ atts \<and> (\<forall>e\<in>set atts. isSignAttempt e) \<and> length atts \<le> 11 - rc
      \<and> attemptChain P (Address a) nonce atts
      \<and> (res = None \<longrightarrow> atts \<noteq> [] \<and> submitError (last atts) = None)
      \<and> (\<forall>err. length atts = 11 - rc \<and> submitError (last atts) = Some err \<longrightarrow> res = Some err)"
proof (induction P T w a cfg blk rc nonce pool evs0 rule: signLoop.induct)
  case (1 P T wallet account cfg blk retryCount nonce pool evs0)
  let ?tx = "CreateTxSign T (Number blk) (Hash blk) nonce (BlockSigners T)"
  note run = "1.prems"(1)
  have rc: "1 \<le> retryCount" "retryCount \<le> 10" using "1.prems" by simp_all
  show ?case
  proof (cases "SignTx wallet account ?tx (ChainId cfg)")
    case (Inl err)
    with run have "evs = evs0 @ []" "res = Some err"
      by (simp_all add: Let_def)
    moreover have "11 - retryCount \<noteq> 0" using rc by simp
    ultimately show ?thesis 
      by (intro exI [of _ "[]"]) simp
  next
    case (Inr txSigned)
    obtain r pool1 where al: "AddLocal P pool txSigned = (r, pool1)"
      by (cases "AddLocal P pool txSigned") auto
    show ?thesis
    proof (cases r)
      case None
      with run Inr al have "evs = evs0 @ [SignAttempt nonce txSigned None pool1]" "res = None"
        by (auto simp: Let_def)
      then show ?thesis
        by (intro exI [of _ "[SignAttempt nonce txSigned None pool1]"]) (use rc in simp)
    next
      case (Some err)
      let ?att = "SignAttempt nonce txSigned (Some err) pool1"
      show ?thesis
      proof (cases "retryCount \<ge> 10")
        case True
        with run Inr al Some have "evs = evs0 @ [?att]" "res = Some err"
          by (auto simp: Let_def)
        then show ?thesis
          by (intro exI [of _ "[?att]"]) (use rc in simp)
      next
        case False
        let ?n = "GetNonce P pool1 (Address account)"
        from run Inr al Some False
        have rec: "signLoop P T wallet account cfg blk (retryCount + 1) ?n pool1 (evs0 @ [?att]) = (res, pool', evs)"
          by (simp add: Let_def)
        have "1 \<le> retryCount + 1" "retryCount + 1 \<le> 10" using False by simp_all
        from "1.IH" [OF refl Inr al [symmetric] Some refl refl False rec this]
        obtain atts where a: "evs = (evs0 @ [?att]) @ atts" "\<forall>e\<in>set atts. isSignAttempt e"
          "length atts \<le> 11 - (retryCount + 1)" "attemptChain P (Address account) ?n atts"
          "res = None \<longrightarrow> atts \<noteq> [] \<and> submitError (last atts) = None"
          "\<forall>err. length atts = 11 - (retryCount + 1) \<and> submitError (last atts) = Some err \<longrightarrow> res = Some err"
          by blast
        have nonempty: "length (?att # atts) = 11 - retryCount \<Longrightarrow> atts \<noteq> []"
          using False by auto
        show ?thesis
        proof (intro exI [of _ "?att # atts"] conjI allI impI)
          show "evs = evs0 @ ?att # atts" using a(1) by simp
          show "\<forall>e\<in>set (?att # atts). isSignAttempt e" using a(2) by simp
          show "length (?att # atts) \<le> 11 - retryCount" using a(3) False by simp
          show "attemptChain P (Address account) nonce (?att # atts)" using a(4) by simp
          show "?att # atts \<noteq> []" by simp
          show "submitError (last (?att # atts)) = None" if "res = None"
            using that a(5) by simp
          show "res = Some e" if "length (?att # atts) = 11 - retryCount \<and> submitError (last (?att # atts)) = Some e" for e
          proof -
            from that nonempty have ne: "atts \<noteq> []" by blast
            from that have "Suc (length atts) = 11 - retryCount" by simp
            then have "length atts = 11 - (retryCount + 1)" by arith
            moreover from that ne have "submitError (last atts) = Some e" by simp
            ultimately show ?thesis using a(6) by blast
          qed
        qed
      qed
    qed
  qed
qed


lemma secretStep_cases:
  "secretStep P T S ent w a cfg epoch exist cn pool db evs = (r, pool', db', evs') \<Longrightarrow>
   (evs' = evs \<and> db' = db)
   \<or> (\<not> exist \<and> 0 < cn \<and> EpocBlockSecret T \<le> cn \<and> cn < EpocBlockOpening T \<and>
       ((\<exists>tx e. evs' = evs @ [SecretSubmit tx (Some e)] \<and> r = Some (Return (Some e)))
        \<or> (\<exists>tx. evs' = evs @ [SecretSubmit tx None, PutKey (drawnKey ent)] \<and> r = None)))"
  by (auto simp: secretStep_def Let_def split: if_splits option.splits sum.splits prod.splits)

lemma openingStep_cases:
  "openingStep P T w a cfg exist cn pool db evs = (r, pool', db', evs') \<Longrightarrow>
   (evs' = evs \<and> db' = db)
   \<or> (exist \<and> 0 < cn \<and> EpocBlockOpening T \<le> cn \<and> cn \<le> EpocBlockRandomize T \<and>
       ((\<exists>tx e. evs' = evs @ [OpeningSubmit tx (Some e)] \<and> r = Some (Return (Some e)))
        \<or> (\<exists>tx. evs' = evs @ [OpeningSubmit tx None, DeleteKey]
               \<and> db' = db(randomizeKeyName := None) \<and> r = None)))"
  by (auto simp: openingStep_def Let_def split: if_splits option.splits sum.splits prod.splits)

lemma CreateTransactionSign_shape:
  assumes run: "CreateTransactionSign P T S ent cfg pool M blk chainDb eb = (out, pool', chainDb', evs)"
  shows "\<exists>atts extra. evs = atts @ extra \<and> (\<forall>e\<in>set atts. isSignAttempt e) \<and> length atts \<le> 10
     \<and> attemptChain P (Address (snd (findAccount M eb)))
          (GetNonce P pool (Address (snd (findAccount M eb)))) atts
     \<and> (\<forall>err. length atts = 10 \<and> submitError (last atts) = Some err \<longrightarrow>
            out = Return (Some err) \<and> extra = [])
     \<and> randomizeTail T cfg blk chainDb chainDb' extra"
proof (cases "S2PoS cfg")
  case None
  with run have "evs = []" by (simp add: CreateTransactionSign_def)
  then show ?thesis
    by (intro exI [of _ "[]"]) (simp add: randomizeTail_def)
next
  case (Some s2)
  note cfg = Some
  obtain wo account where fa: "findAccount M eb = (wo, account)"
    by (cases "findAccount M eb") auto
  show ?thesis
  proof (cases wo)
    case None
    with run cfg fa have "evs = []" by (simp add: CreateTransactionSign_def)
    then show ?thesis
      by (intro exI [of _ "[]"]) (simp add: randomizeTail_def)
  next
    case (Some wallet)
    note wo = Some
    let ?nonce = "GetNonce P pool (Address account)"
    let ?cn = "(of_nat (Number blk) :: uint64) mod Epoch s2"
    let ?exist = "chainDb randomizeKeyName \<noteq> None"
    have cn: "checkNumberOf cfg blk = ?cn" by (simp add: checkNumberOf_def cfg)
    obtain res pool1 evs1 where sl:
      "signLoop P T wallet account cfg blk 1 ?nonce pool [] = (res, pool1, evs1)"
      by (cases "signLoop P T wallet account cfg blk 1 ?nonce pool []") auto
    from signLoop_events [OF sl]
    have a: "\<forall>e\<in>set evs1. isSignAttempt e" "length evs1 \<le> 10"
      "attemptChain P (Address account) ?nonce evs1"
      "\<forall>err. length evs1 = 10 \<and> submitError (last evs1) = Some err \<longrightarrow> res = Some err"
      by auto
    have goal: "\<exists>atts extra. evs = atts @ extra \<and> (\<forall>e\<in>set atts. isSignAttempt e) \<and> length atts \<le> 10
       \<and> attemptChain P (Address account) ?nonce atts
       \<and> (\<forall>err. length atts = 10 \<and> submitError (last atts) = Some err \<longrightarrow>
            out = Return (Some err) \<and> extra = [])
       \<and> randomizeTail T cfg blk chainDb chainDb' extra"
      if "evs = evs1 @ extra" "res = None \<or> (out = Return res \<and> extra = [])"
         "randomizeTail T cfg blk chainDb chainDb' extra" for extra
      using that a by (intro exI [of _ evs1] exI [of _ extra]) auto
    show ?thesis
    proof (cases res)
      case (Some err)
      with run cfg fa wo sl have "evs = evs1 @ []" "out = Return res"
        by (simp_all add: CreateTransactionSign_def)
      then have "\<exists>atts extra. evs = atts @ extra \<and> (\<forall>e\<in>set atts. isSignAttempt e) \<and> length atts \<le> 10
       \<and> attemptChain P (Address account) ?nonce atts
       \<and> (\<forall>err. length atts = 10 \<and> submitError (last atts) = Some err \<longrightarrow>
            out = Return (Some err) \<and> extra = [])
       \<and> randomizeTail T cfg blk chainDb chainDb' extra"
        by (intro goal [of "[]"]) (simp_all add: randomizeTail_def)
      then show ?thesis by (simp add: fa)
    next
      case None
      note res = None
      show ?thesis
      proof (cases "Epoch s2 = 0")
        case True
        with run cfg fa wo sl res have "evs = evs1 @ []"
          by (simp add: CreateTransactionSign_def)
        then have "\<exists>atts extra. evs = atts @ extra \<and> (\<forall>e\<in>set atts. isSignAttempt e) \<and> length atts \<le> 10
       \<and> attemptChain P (Address account) ?nonce atts
       \<and> (\<forall>err. length atts = 10 \<and> submitError (last atts) = Some err \<longrightarrow>
            out = Return (Some err) \<and> extra = [])
       \<and> randomizeTail T cfg blk chainDb chainDb' extra"
          using res by (intro goal [of "[]"]) (simp_all add: randomizeTail_def)
        then show ?thesis by (simp add: fa)
      next
        case False
        obtain r2 pool2 db2 evs2 where ss:
          "secretStep P T S ent wallet account cfg (Epoch s2) ?exist ?cn pool1 chainDb evs1
             = (r2, pool2, db2, evs2)"
          by (cases "secretStep P T S ent wallet account cfg (Epoch s2) ?exist ?cn pool1 chainDb evs1") auto
        obtain r3 pool3 db3 evs3 where os:
          "openingStep P T wallet account cfg ?exist ?cn pool2 db2 evs2 = (r3, pool3, db3, evs3)"
          by (cases "openingStep P T wallet account cfg ?exist ?cn pool2 db2 evs2") auto
        have fin: "(r2 \<noteq> None \<and> evs = evs2 \<and> chainDb' = db2) \<or> (r2 = None \<and> evs = evs3 \<and> chainDb' = db3)"
          using run cfg fa wo sl res False ss os
          by (auto simp: CreateTransactionSign_def Let_def split: option.splits)
        from secretStep_cases [OF ss] openingStep_cases [OF os] fin
        have "\<exists>extra. evs = evs1 @ extra \<and> randomizeTail T cfg blk chainDb chainDb' extra"
          unfolding randomizeTail_def cn by (elim disjE conjE exE) auto
        then obtain extra where "evs = evs1 @ extra" "randomizeTail T cfg blk chainDb chainDb' extra"
          by blast
        then have "\<exists>atts extra. evs = atts @ extra \<and> (\<forall>e\<in>set atts. isSignAttempt e) \<and> length atts \<le> 10
       \<and> attemptChain P (Address account) ?nonce atts
       \<and> (\<forall>err. length atts = 10 \<and> submitError (last atts) = Some err \<longrightarrow>
            out = Return (Some err) \<and> extra = [])
       \<and> randomizeTail T cfg blk chainDb chainDb' extra"
          using res by (intro goal [of extra]) simp_all
        then show ?thesis by (simp add: fa)
      qed
    qed
  qed
qed


lemma randomizeTail_no_sign:
  "randomizeTail T cfg blk chainDb chainDb' extra \<Longrightarrow> filter isSignAttempt extra = []"
  by (auto simp: randomizeTail_def)

lemma filter_all: "\<forall>e\<in>set xs. Q e \<Longrightarrow> filter Q xs = xs"
  by (induction xs) auto

lemma attempts_no_randomize:
  "\<forall>e\<in>set atts. isSignAttempt e \<Longrightarrow>
     filter isSecretSubmit atts = [] \<and> filter isOpeningSubmit atts = []
     \<and> (\<forall>tx r. OpeningSubmit tx r \<notin> set atts)"
  by (induction atts) (auto elim: isSignAttempt.elims)

text \<open>
  C9. A call submits the sign transaction to the pool at most 10 times; the first attempt
  is built with the nonce read at the start, every later one follows a failed attempt and
  is built with the nonce read from the pool after that failure; and when all 10 attempts
  have failed the call returns the error of the last submission.
\<close>

theorem CreateTransactionSign_retry:
  assumes run: "CreateTransactionSign P T S ent cfg pool M blk chainDb eb = (out, pool', chainDb', evs)"
  shows "length (filter isSignAttempt evs) \<le> 10
     \<and> attemptChain P (Address (snd (findAccount M eb)))
          (GetNonce P pool (Address (snd (findAccount M eb)))) (filter isSignAttempt evs)
     \<and> (\<forall>err. length (filter isSignAttempt evs) = 10
              \<and> submitError (last (filter isSignAttempt evs)) = Some err
            \<longrightarrow> out = Return (Some err))"
proof -
  from CreateTransactionSign_shape [OF run]
  obtain atts extra where s: "evs = atts @ extra" "\<forall>e\<in>set atts. isSignAttempt e" "length atts \<le> 10"
    "attemptChain P (Address (snd (findAccount M eb)))
          (GetNonce P pool (Address (snd (findAccount M eb)))) atts"
    "\<forall>err. length atts = 10 \<and> submitError (last atts) = Some err \<longrightarrow>
            out = Return (Some err) \<and> extra = []"
    "randomizeTail T cfg blk chainDb chainDb' extra"
    by blast
  have "filter isSignAttempt evs = atts"
    using s(1) filter_all [OF s(2)] randomizeTail_no_sign [OF s(6)] by simp
  with s show ?thesis by simp
qed

theorem CreateTransactionSign_retry_witness:
  "fst (CreateTransactionSign fullPool toyConsts toyStdlib toyEntropy toyConfig 0 toyManager
          \<lparr>Number = 860, Hash = replicate 32 1, Transactions = []\<rparr> Map.empty 5) = Return (Some ''nonce too low'')
   \<and> length (filter isSignAttempt (snd (snd (snd
        (CreateTransactionSign fullPool toyConsts toyStdlib toyEntropy toyConfig 0 toyManager
          \<lparr>Number = 860, Hash = replicate 32 1, Transactions = []\<rparr> Map.empty 5))))) = 10"
proof -
  let ?X = "CreateTransactionSign fullPool toyConsts toyStdlib toyEntropy toyConfig 0 toyManager
          \<lparr>Number = 860, Hash = replicate 32 1, Transactions = []\<rparr> Map.empty 5"
  have run: "?X = (fst ?X, fst (snd ?X), fst (snd (snd ?X)), snd (snd (snd ?X)))" by simp
  have len: "length (filter isSignAttempt (snd (snd (snd ?X)))) = 10" by code_simp
  have lst: "submitError (last (filter isSignAttempt (snd (snd (snd ?X))))) = Some ''nonce too low''"
    by code_simp
  from CreateTransactionSign_retry [OF run] len lst show ?thesis by blast
qed

text \<open>
  C8. In one call at most one secret or opening transaction is submitted, never both. A
  secret transaction is submitted only when no randomizeKey is in the store and
  0 < checkNumber, EpocBlockSecret <= checkNumber < EpocBlockOpening; an opening
  transaction only when a key is in the store and
  EpocBlockOpening <= checkNumber <= EpocBlockRandomize. So no second secret is committed
  while a key is stored, and once the opening has entered the pool the key is deleted:
  the deletion is the last thing the call does.
\<close>

theorem CreateTransactionSign_randomize:
  assumes run: "CreateTransactionSign P T S ent cfg pool M blk chainDb eb = (out, pool', chainDb', evs)"
  shows "length (filter isSecretSubmit evs) + length (filter isOpeningSubmit evs) \<le> 1
     \<and> (filter isSecretSubmit evs \<noteq> [] \<longrightarrow>
           chainDb randomizeKeyName = None \<and> 0 < checkNumberOf cfg blk
           \<and> EpocBlockSecret T \<le> checkNumberOf cfg blk
           \<and> checkNumberOf cfg blk < EpocBlockOpening T)
     \<and> (filter isOpeningSubmit evs \<noteq> [] \<longrightarrow>
           chainDb randomizeKeyName \<noteq> None
           \<and> EpocBlockOpening T \<le> checkNumberOf cfg blk
           \<and> checkNumberOf cfg blk \<le> EpocBlockRandomize T)
     \<and> ((\<exists>tx. OpeningSubmit tx None \<in> set evs) \<longrightarrow>
           chainDb' randomizeKeyName = None \<and> last evs = DeleteKey)"
proof -
  from CreateTransactionSign_shape [OF run]
  obtain atts extra where s: "evs = atts @ extra" "\<forall>e\<in>set atts. isSignAttempt e"
    "randomizeTail T cfg blk chainDb chainDb' extra"
    by blast
  note n = attempts_no_randomize [OF s(2)]
  have f: "filter isSecretSubmit evs = filter isSecretSubmit extra"
    "filter isOpeningSubmit evs = filter isOpeningSubmit extra"
    "\<And>tx. OpeningSubmit tx None \<in> set evs \<longleftrightarrow> OpeningSubmit tx None \<in> set extra"
    "extra \<noteq> [] \<Longrightarrow> last evs = last extra"
    using s(1) n by auto
  from s(3) show ?thesis
    unfolding randomizeTail_def
    by (elim disjE conjE exE) (auto simp: f)
qed


theorem CreateTransactionSign_randomize_witness:
  "length (filter isOpeningSubmit (snd (snd (snd
      (CreateTransactionSign openPool toyConsts toyStdlib toyEntropy toyConfig 0 toyManager
          \<lparr>Number = 860, Hash = replicate 32 1, Transactions = []\<rparr>
          [randomizeKeyName \<mapsto> replicate 32 98] 5))))) = 1
   \<and> [randomizeKeyName \<mapsto> replicate 32 (98 :: byte)] randomizeKeyName \<noteq> None
   \<and> EpocBlockOpening toyConsts
        \<le> checkNumberOf toyConfig \<lparr>Number = 860, Hash = replicate 32 1, Transactions = []\<rparr>
   \<and> checkNumberOf toyConfig \<lparr>Number = 860, Hash = replicate 32 1, Transactions = []\<rparr>
        \<le> EpocBlockRandomize toyConsts
   \<and> fst (snd (snd
      (CreateTransactionSign openPool toyConsts toyStdlib toyEntropy toyConfig 0 toyManager
          \<lparr>Number = 860, Hash = replicate 32 1, Transactions = []\<rparr>
          [randomizeKeyName \<mapsto> replicate 32 98] 5))) randomizeKeyName = None
   \<and> length (filter isSecretSubmit (snd (snd (snd
      (CreateTransactionSign openPool toyConsts toyStdlib toyEntropy toyConfig 0 toyManager
          \<lparr>Number = 810, Hash = replicate 32 1, Transactions = []\<rparr> Map.empty 5))))) = 1
   \<and> EpocBlockSecret toyConsts
        \<le> checkNumberOf toyConfig \<lparr>Number = 810, Hash = replicate 32 1, Transactions = []\<rparr>
   \<and> checkNumberOf toyConfig \<lparr>Number = 810, Hash = replicate 32 1, Transactions = []\<rparr>
        < EpocBlockOpening toyConsts"
proof -
  let ?X = "CreateTransactionSign openPool toyConsts toyStdlib toyEntropy toyConfig 0 toyManager
          \<lparr>Number = 860, Hash = replicate 32 1, Transactions = []\<rparr>
          [randomizeKeyName \<mapsto> replicate 32 98] 5"
  let ?Y = "CreateTransactionSign openPool toyConsts toyStdlib toyEntropy toyConfig 0 toyManager
          \<lparr>Number = 810, Hash = replicate 32 1, Transactions = []\<rparr> Map.empty 5"
  have runX: "?X = (fst ?X, fst (snd ?X), fst (snd (snd ?X)), snd (snd (snd ?X)))" by simp
  have runY: "?Y = (fst ?Y, fst (snd ?Y), fst (snd (snd ?Y)), snd (snd (snd ?Y)))" by simp
  have evX: "length (filter isOpeningSubmit (snd (snd (snd ?X)))) = 1" by code_simp
  then have neX: "filter isOpeningSubmit (snd (snd (snd ?X))) \<noteq> []"
    by (simp only: length_0_conv [symmetric] One_nat_def)
  have "list_ex (\<lambda>e. case e of OpeningSubmit tx None \<Rightarrow> True | _ \<Rightarrow> False) (snd (snd (snd ?X)))"
    by code_simp
  then obtain ev where ev: "ev \<in> set (snd (snd (snd ?X)))"
    "(case ev of OpeningSubmit tx None \<Rightarrow> True | _ \<Rightarrow> False)"
    by (auto simp: list_ex_iff)
  from ev(2) obtain tx where "ev = OpeningSubmit tx None"
    by (cases ev) (auto split: option.splits)
  with ev(1) have inX: "\<exists>tx. OpeningSubmit tx None \<in> set (snd (snd (snd ?X)))" by blast
  have evY: "length (filter isSecretSubmit (snd (snd (snd ?Y)))) = 1" by code_simp
  then have neY: "filter isSecretSubmit (snd (snd (snd ?Y))) \<noteq> []"
    by (simp only: length_0_conv [symmetric] One_nat_def)
  from CreateTransactionSign_randomize [OF runX] CreateTransactionSign_randomize [OF runY]
    evX neX inX evY neY
  show ?thesis by blast
qed

section \<open>The checkpoint reward tally\<close>

lemma window_step:
  assumes "i \<le> e" "e \<noteq> - 1"
  shows "window i e = i # window (i + 1) (e :: uint64)"
proof -
  have le: "unat i \<le> unat e" using assms(1) by (simp add: word_le_nat_alt)
  have "i \<noteq> - 1" using assms by (metis max_word_max antisym)
  then have "i + 1 \<noteq> 0" by (metis add.commute add_eq_0_iff)
  then have suc: "unat (i + 1) = Suc (unat i)" by (simp add: unatSuc add.commute)
  have "[unat i..<Suc (unat e)] = unat i # [Suc (unat i)..<Suc (unat e)]"
    using le by (simp add: upt_conv_Cons)
  then have "window i e = i # map of_nat [Suc (unat i)..<Suc (unat e)]"
    using assms(1) by (simp add: window_def)
  moreover have "window (i + 1) e = map of_nat [Suc (unat i)..<Suc (unat e)]"
  proof (cases "i + 1 \<le> e")
    case True then show ?thesis by (simp add: window_def suc)
  next
    case False
    then have "unat e < Suc (unat i)" by (simp add: word_le_nat_alt suc)
    then show ?thesis using False by (simp add: window_def)
  qed
  ultimately show ?thesis by simp
qed

lemma foldl_filter:
  "foldl (\<lambda>a x. if Q x then f a x else a) a xs = foldl f a (filter Q xs)"
  by (induction xs arbitrary: a) auto

lemma tallyLoop_nowrap:
  "epoch \<noteq> 0 \<Longrightarrow> e \<noteq> - 1 \<Longrightarrow> n = Suc (unat e) - unat i \<Longrightarrow>
   tallyLoop chain c epoch ms d m i e acc =
     Some (Ok (foldl (creditBlock ms d m) acc (filter (eligible chain c epoch) (window i e))))"
proof (induction n arbitrary: i acc)
  case 0
  then have "\<not> i \<le> e" by (simp add: word_le_nat_alt)
  then show ?case by (subst tallyLoop.simps) (simp add: window_def)
next
  case (Suc n)
  then have le: "i \<le> e" by (simp add: word_le_nat_alt) 
  have "i \<noteq> - 1" using le Suc.prems(2) by (metis max_word_max antisym)
  then have "i + 1 \<noteq> 0" by (metis add.commute add_eq_0_iff)
  then have suc: "unat (i + 1) = Suc (unat i)" by (simp add: unatSuc add.commute)
  have n: "n = Suc (unat e) - unat (i + 1)" using Suc.prems(3) suc by simp
  show ?case
    by (subst tallyLoop.simps)
       (simp add: le Suc.prems(1) Suc.IH [OF Suc.prems(1,2) n] window_step [OF le Suc.prems(2)])
qed

lemma tallyLoop_wrap:
  assumes "tallyLoop chain c epoch ms d m i e acc = Some r"
  shows "e = - 1 \<longrightarrow> r = Panicked"
proof (rule tallyLoop.raw_induct
    [where P = "\<lambda>chain c epoch ms d m i e acc r. e = - 1 \<longrightarrow> r = Panicked", OF _ assms])
  fix tl :: "chainReader \<Rightarrow> ('a, 'b) engine \<Rightarrow> uint64 \<Rightarrow> address list \<Rightarrow> (hash \<Rightarrow> address list) \<Rightarrow>
   (uint64 \<Rightarrow> hash) \<Rightarrow> uint64 \<Rightarrow> uint64 \<Rightarrow> (address \<rightharpoonup> rewardLog) \<times> uint64 \<Rightarrow>
   ((address \<rightharpoonup> rewardLog) \<times> uint64) res option"
    and chain c epoch ms d m i e acc r
  assume hyp: "\<And>chain c epoch ms d m i e acc r.
      tl chain c epoch ms d m i e acc = Some r \<Longrightarrow> e = - 1 \<longrightarrow> r = Panicked"
    and body: "(if i \<le> e
      then if epoch = 0 then Some Panicked
           else tl chain c epoch ms d m (i + 1) e
                 (if eligible chain c epoch i then creditBlock ms d m acc i else acc)
      else Some (Ok acc)) = Some r"
  show "e = - 1 \<longrightarrow> r = Panicked"
  proof
    assume e: "e = - 1"
    then have "i \<le> e" by simp
    with body have "r = Panicked \<or> tl chain c epoch ms d m (i + 1) e
          (if eligible chain c epoch i then creditBlock ms d m acc i else acc) = Some r"
      by (simp split: if_splits)
    then show "r = Panicked" using hyp e by blast
  qed
qed

lemma tallyLoop_Ok:
  assumes "tallyLoop chain c epoch ms d m i e acc = Some (Ok acc')"
  shows "acc' = foldl (creditBlock ms d m) acc (filter (eligible chain c epoch) (window i e))"
proof (cases "epoch = 0")
  case True
  with assms have "\<not> i \<le> e \<and> acc' = acc"
    by (subst (asm) tallyLoop.simps) (auto split: if_splits)
  then show ?thesis by (simp add: window_def)
next
  case False
  have "e \<noteq> - 1" using tallyLoop_wrap [OF assms] by auto
  from tallyLoop_nowrap [OF False this refl, of chain c ms d m i acc] assms show ?thesis by simp
qed

lemma walkIter_walkBack:
  "walkIter chain c start n (h, i, st) = Some (h', i', st') \<Longrightarrow>
   walkBack chain c h i start st = walkBack chain c h' i' start st'"
proof (induction n arbitrary: h i st)
  case 0
  then show ?case by simp
next
  case (Suc n)
  from Suc.prems obtain h1 st1 where
    s: "i \<ge> start" "walkStep chain c h i st = Some (h1, st1)"
       "walkIter chain c start n (h1, i - 1, st1) = Some (h', i', st')"
    by (auto split: if_splits option.splits)
  have "walkBack chain c h i start st = walkBack chain c h1 (i - 1) start st1"
    by (subst walkBack.simps) (simp add: s)
  with Suc.IH [OF s(3)] show ?case by simp
qed

lemma missingAt_walkBack:
  assumes "missingAt chain c start prev (h, i, st)"
  shows "walkBack chain c h i start st = Some Panicked
         \<or> (walkBack chain c h i start st = Some (Ok (h, st))
             \<and> GetHeader chain (ParentHash h) prev = None)"
proof (cases "i \<ge> start")
  case True
  with assms have "walkStep chain c h i st = None"
    by (auto simp: missingAt_def walkStep_def split: option.splits)
  then show ?thesis using True by (subst walkBack.simps) simp
next
  case False
  with assms have "GetHeader chain (ParentHash h) prev = None" by (simp add: missingAt_def)
  moreover have "walkBack chain c h i start st = Some (Ok (h, st))"
    using False by (subst walkBack.simps) simp
  ultimately show ?thesis by simp
qed

lemma GetRewardForCheckpoint_unfold:
  "GetRewardForCheckpoint c e chain header rCheckpoint totalSigner =
     (case walkBack chain c (fst (walkStart e header rCheckpoint))
             (fst (snd (walkStart e header rCheckpoint)))
             (prevCheckpointOf header rCheckpoint + 1)
             (snd (snd (walkStart e header rCheckpoint))) of
        None \<Rightarrow> None
      | Some Panicked \<Rightarrow> Some Panicked
      | Some (Ok (hdr, st)) \<Rightarrow>
          (case GetHeader chain (ParentHash hdr) (prevCheckpointOf header rCheckpoint) of
             None \<Rightarrow> Some Panicked
           | Some h \<Rightarrow>
               (case S2PoS (Config chain) of
                  None \<Rightarrow> Some Panicked
                | Some s2 \<Rightarrow>
                    (case tallyLoop chain c (Epoch s2) (GetMasternodesFromCheckpointHeader c h)
                            (wsData st) (wsMapBlkHash st)
                            (prevCheckpointOf header rCheckpoint + 1)
                            (prevCheckpointOf header rCheckpoint + rCheckpoint)
                            (Map.empty, totalSigner) of
                       None \<Rightarrow> None
                     | Some Panicked \<Rightarrow> Some Panicked
                     | Some (Ok (signers, tot)) \<Rightarrow> Some (Ok (signers, None, tot, wsEngine st))))))"
  by (simp add: GetRewardForCheckpoint_def walkStart_def prevCheckpointOf_def Let_def
      split: option.splits res.splits prod.splits)


lemma set_window: "set (window s e) = {i. s \<le> i \<and> i \<le> e}"
proof (cases "s \<le> e")
  case False
  then show ?thesis by (auto simp: window_def)
next
  case True
  have "(of_nat ` {unat s..<Suc (unat e)} :: uint64 set) = {i. s \<le> i \<and> i \<le> e}"
  proof (intro set_eqI iffI)
    fix i :: uint64
    assume "i \<in> of_nat ` {unat s..<Suc (unat e)}"
    then obtain k where k: "unat s \<le> k" "k \<le> unat e" "i = of_nat k" by auto
    have "unat e < 2 ^ LENGTH(64)" by (rule unsigned_less)
    then have "k < 2 ^ LENGTH(64)" using k(2) by (rule le_less_trans [rotated])
    then have "unat i = k" using k(3) by (intro of_nat_inverse) simp_all
    with k show "i \<in> {i. s \<le> i \<and> i \<le> e}" by (simp add: word_le_nat_alt)
  next
    fix i :: uint64
    assume "i \<in> {i. s \<le> i \<and> i \<le> e}"
    then have "unat i \<in> {unat s..<Suc (unat e)}" by (simp add: word_le_nat_alt)
    then have "of_nat (unat i) \<in> (of_nat ` {unat s..<Suc (unat e)} :: uint64 set)" by (rule imageI)
    then show "i \<in> of_nat ` {unat s..<Suc (unat e)}" by simp
  qed
  moreover have "set (window s e) = of_nat ` {unat s..<Suc (unat e)}"
    using True by (simp only: window_def if_True set_map set_upt)
  ultimately show ?thesis by (simp only:)
qed

lemma foldl_creditBlock_cong:
  "\<forall>i \<in> set xs. d' (m' i) = d (m i) \<Longrightarrow>
   foldl (creditBlock ms d' m') acc xs = foldl (creditBlock ms d m) acc xs"
  by (induction xs arbitrary: acc) (simp_all add: creditBlock_def)

text \<open>
  C2, as the code has it. When the walk-back comes to a header or block that the chain
  reader does not have, the call does not return: it panics on the nil pointer, so the
  caller gets neither an error nor a tally, partial or not. Whenever the call returns, its
  error is nil.
\<close>

theorem GetRewardForCheckpoint_missing_panics:
  "(walkIter chain c (prevCheckpointOf header rCheckpoint + 1) n (walkStart e header rCheckpoint) = Some s
      \<and> missingAt chain c (prevCheckpointOf header rCheckpoint + 1) (prevCheckpointOf header rCheckpoint) s
    \<longrightarrow> GetRewardForCheckpoint c e chain header rCheckpoint totalSigner = Some Panicked)
   \<and> (GetRewardForCheckpoint c e chain header rCheckpoint totalSigner = Some (Ok (signers, err, tot, e'))
    \<longrightarrow> err = None)"
proof (intro conjI impI)
  assume a: "walkIter chain c (prevCheckpointOf header rCheckpoint + 1) n (walkStart e header rCheckpoint) = Some s
      \<and> missingAt chain c (prevCheckpointOf header rCheckpoint + 1) (prevCheckpointOf header rCheckpoint) s"
  obtain h i st where s: "s = (h, i, st)" by (cases s) auto
  obtain h0 i0 st0 where s0: "walkStart e header rCheckpoint = (h0, i0, st0)"
    by (cases "walkStart e header rCheckpoint") auto
  from a have wi: "walkIter chain c (prevCheckpointOf header rCheckpoint + 1) n (h0, i0, st0) = Some (h, i, st)"
    unfolding s s0 by simp
  have w: "walkBack chain c h0 i0 (prevCheckpointOf header rCheckpoint + 1) st0
      = walkBack chain c h i (prevCheckpointOf header rCheckpoint + 1) st"
    by (rule walkIter_walkBack [OF wi])
  from a missingAt_walkBack [of chain c _ _ h i st]
  have "walkBack chain c h i (prevCheckpointOf header rCheckpoint + 1) st = Some Panicked
      \<or> (walkBack chain c h i (prevCheckpointOf header rCheckpoint + 1) st = Some (Ok (h, st))
          \<and> GetHeader chain (ParentHash h) (prevCheckpointOf header rCheckpoint) = None)"
    unfolding s by blast
  then show "GetRewardForCheckpoint c e chain header rCheckpoint totalSigner = Some Panicked"
    unfolding GetRewardForCheckpoint_unfold s0 fst_conv snd_conv w by auto
next
  assume "GetRewardForCheckpoint c e chain header rCheckpoint totalSigner = Some (Ok (signers, err, tot, e'))"
  then show "err = None"
    unfolding GetRewardForCheckpoint_unfold
    by (auto split: option.splits res.splits prod.splits)
qed

theorem GetRewardForCheckpoint_missing_panics_witness:
  "(\<exists>s. walkIter (toyChainWithout 22) toyEngine (prevCheckpointOf toyHeader 3 + 1) 1
            (walkStart () toyHeader 3) = Some s
        \<and> missingAt (toyChainWithout 22) toyEngine (prevCheckpointOf toyHeader 3 + 1)
            (prevCheckpointOf toyHeader 3) s)
   \<and> GetRewardForCheckpoint toyEngine () (toyChainWithout 22) toyHeader 3 0 = Some Panicked
   \<and> (\<exists>signers tot e'.
        GetRewardForCheckpoint toyEngine () (toyChainWithout 0) toyHeader 3 0
          = Some (Ok (signers, None, tot, e')))"
proof -
  have "(case walkIter (toyChainWithout 22) toyEngine (prevCheckpointOf toyHeader 3 + 1) 1
            (walkStart () toyHeader 3) of
           None \<Rightarrow> False
         | Some s \<Rightarrow> missingAt (toyChainWithout 22) toyEngine (prevCheckpointOf toyHeader 3 + 1)
                      (prevCheckpointOf toyHeader 3) s)"
    by code_simp
  then obtain s where s:
    "walkIter (toyChainWithout 22) toyEngine (prevCheckpointOf toyHeader 3 + 1) 1
            (walkStart () toyHeader 3) = Some s"
    "missingAt (toyChainWithout 22) toyEngine (prevCheckpointOf toyHeader 3 + 1)
            (prevCheckpointOf toyHeader 3) s"
    by (auto split: option.splits)
  with GetRewardForCheckpoint_missing_panics
    [of "toyChainWithout 22" toyEngine toyHeader 3 1 "()" s 0]
  have p: "GetRewardForCheckpoint toyEngine () (toyChainWithout 22) toyHeader 3 0 = Some Panicked"
    by blast
  have "(case GetRewardForCheckpoint toyEngine () (toyChainWithout 0) toyHeader 3 0 of
           Some (Ok x) \<Rightarrow> True | Some Panicked \<Rightarrow> False | None \<Rightarrow> False)"
    by code_simp
  then obtain x where "GetRewardForCheckpoint toyEngine () (toyChainWithout 0) toyHeader 3 0
      = Some (Ok x)"
    by (auto split: option.splits res.splits)
  then obtain signers err tot e' where run:
    "GetRewardForCheckpoint toyEngine () (toyChainWithout 0) toyHeader 3 0
      = Some (Ok (signers, err, tot, e'))"
    by (cases x) auto
  with GetRewardForCheckpoint_missing_panics
    [of "toyChainWithout 0" toyEngine toyHeader 3 1 "()" s 0 signers err tot e']
  have "err = None" by blast
  with run s p show ?thesis by blast
qed

text \<open>
  C2, as it is stated, fails: on the chain without the header of block 22 the reader
  yields no header for block 22, and the call ends in a panic, not in a returned error.
\<close>

theorem GetRewardForCheckpoint_missing_header_no_error:
  "GetHeader (toyChainWithout 22) (toyHash 22) 22 = None
   \<and> GetRewardForCheckpoint toyEngine () (toyChainWithout 22) toyHeader 3 0 = Some Panicked
   \<and> \<not> (\<exists>signers err tot e'.
          GetRewardForCheckpoint toyEngine () (toyChainWithout 22) toyHeader 3 0
            = Some (Ok (signers, Some err, tot, e')))"
proof -
  have a: "GetHeader (toyChainWithout 22) (toyHash 22) 22 = None"
    by (simp add: toyChainWithout_def)
  have b: "GetRewardForCheckpoint toyEngine () (toyChainWithout 22) toyHeader 3 0 = Some Panicked"
    by code_simp
  from a b show ?thesis by simp
qed

text \<open>
  C7. With prevCheckpoint = headerNumber - 2 * rCheckpoint, whatever the function returns
  is the tally, block by block, over the eligible blocks of the window
  [prevCheckpoint + 1, prevCheckpoint + rCheckpoint], starting from no signers and the
  caller's total: a block i of the window is counted only if i mod epoch < MergeSignRange,
  or i mod MergeSignRange = 0, or IsTIP2019(i) is false, and then through the senders
  recorded under its hash alone. What is recorded under other hashes plays no part.
\<close>

theorem GetRewardForCheckpoint_window:
  assumes run: "GetRewardForCheckpoint c e chain header rCheckpoint totalSigner
                  = Some (Ok (signers, err, tot, e'))"
  shows "\<exists>hdr st h s2.
      walkBack chain c (fst (walkStart e header rCheckpoint)) (fst (snd (walkStart e header rCheckpoint)))
        (prevCheckpointOf header rCheckpoint + 1) (snd (snd (walkStart e header rCheckpoint)))
        = Some (Ok (hdr, st))
    \<and> GetHeader chain (ParentHash hdr) (prevCheckpointOf header rCheckpoint) = Some h
    \<and> S2PoS (Config chain) = Some s2
    \<and> (signers, tot) =
        foldl (creditBlock (GetMasternodesFromCheckpointHeader c h) (wsData st) (wsMapBlkHash st))
          (Map.empty, totalSigner)
          (filter (eligible chain c (Epoch s2)) (rewardWindow header rCheckpoint))
    \<and> (\<forall>data' mapBlkHash'.
          (\<forall>i \<in> set (filter (eligible chain c (Epoch s2)) (rewardWindow header rCheckpoint)).
              data' (mapBlkHash' i) = wsData st (wsMapBlkHash st i)) \<longrightarrow>
          (signers, tot) =
            foldl (creditBlock (GetMasternodesFromCheckpointHeader c h) data' mapBlkHash')
              (Map.empty, totalSigner)
              (filter (eligible chain c (Epoch s2)) (rewardWindow header rCheckpoint)))
    \<and> set (rewardWindow header rCheckpoint)
        = {i. prevCheckpointOf header rCheckpoint + 1 \<le> i
              \<and> i \<le> prevCheckpointOf header rCheckpoint + rCheckpoint}"
proof -
  from run obtain hdr st where
    w: "walkBack chain c (fst (walkStart e header rCheckpoint)) (fst (snd (walkStart e header rCheckpoint)))
        (prevCheckpointOf header rCheckpoint + 1) (snd (snd (walkStart e header rCheckpoint)))
        = Some (Ok (hdr, st))"
    unfolding GetRewardForCheckpoint_unfold
    by (auto split: option.splits res.splits prod.splits)
  from run obtain h where
    h: "GetHeader chain (ParentHash hdr) (prevCheckpointOf header rCheckpoint) = Some h"
    unfolding GetRewardForCheckpoint_unfold w
    by (auto split: option.splits res.splits prod.splits)
  from run obtain s2 where s2: "S2PoS (Config chain) = Some s2"
    unfolding GetRewardForCheckpoint_unfold w
    by (auto simp: h split: option.splits res.splits prod.splits)
  from run have t: "tallyLoop chain c (Epoch s2) (GetMasternodesFromCheckpointHeader c h)
                            (wsData st) (wsMapBlkHash st)
                            (prevCheckpointOf header rCheckpoint + 1)
                            (prevCheckpointOf header rCheckpoint + rCheckpoint)
                            (Map.empty, totalSigner) = Some (Ok (signers, tot))"
    unfolding GetRewardForCheckpoint_unfold w
    by (auto simp: h s2 split: option.splits res.splits prod.splits)
  from tallyLoop_Ok [OF t] have f: "(signers, tot) =
        foldl (creditBlock (GetMasternodesFromCheckpointHeader c h) (wsData st) (wsMapBlkHash st))
          (Map.empty, totalSigner)
          (filter (eligible chain c (Epoch s2)) (rewardWindow header rCheckpoint))"
    by (simp add: rewardWindow_def)
  then have "\<forall>data' mapBlkHash'.
          (\<forall>i \<in> set (filter (eligible chain c (Epoch s2)) (rewardWindow header rCheckpoint)).
              data' (mapBlkHash' i) = wsData st (wsMapBlkHash st i)) \<longrightarrow>
          (signers, tot) =
            foldl (creditBlock (GetMasternodesFromCheckpointHeader c h) data' mapBlkHash')
              (Map.empty, totalSigner)
              (filter (eligible chain c (Epoch s2)) (rewardWindow header rCheckpoint))"
    by (simp add: foldl_creditBlock_cong)
  moreover note f
  moreover have "set (rewardWindow header rCheckpoint)
        = {i. prevCheckpointOf header rCheckpoint + 1 \<le> i
              \<and> i \<le> prevCheckpointOf header rCheckpoint + rCheckpoint}"
    by (simp add: rewardWindow_def set_window)
  ultimately show ?thesis using w h s2 by blast
qed

theorem GetRewardForCheckpoint_window_witness:
  "\<exists>signers. GetRewardForCheckpoint toyEngine () (toyChainWithout 0) toyHeader 3 0
        = Some (Ok (signers, None, 1, ()))
     \<and> signers 7 = Some \<lparr>Sign = 1, Reward = 0\<rparr> \<and> signers 8 = None \<and> signers 9 = None
     \<and> rewardWindow toyHeader 3 = [19, 20, 21]
     \<and> filter (eligible (toyChainWithout 0) toyEngine 10) (rewardWindow toyHeader 3) = [20, 21]
     \<and> set (rewardWindow toyHeader 3)
          = {i. prevCheckpointOf toyHeader 3 + 1 \<le> i \<and> i \<le> prevCheckpointOf toyHeader 3 + 3}"
proof -
  have "map_option (\<lambda>r. case r of Panicked \<Rightarrow> None
          | Ok (signers, err, tot, e) \<Rightarrow> Some (signers 7, signers 8, signers 9, err, tot))
      (GetRewardForCheckpoint toyEngine () (toyChainWithout 0) toyHeader 3 0)
      = Some (Some (Some \<lparr>Sign = 1, Reward = 0\<rparr>, None, None, None, 1))"
    by code_simp
  then obtain z where z: "GetRewardForCheckpoint toyEngine () (toyChainWithout 0) toyHeader 3 0 = Some z"
    and c: "(case z of Panicked \<Rightarrow> None
          | Ok (signers, err, tot, e) \<Rightarrow> Some (signers 7, signers 8, signers 9, err, tot))
        = Some (Some \<lparr>Sign = 1, Reward = 0\<rparr>, None, None, None, 1)"
    by auto
  from c obtain signers err tot e where ok: "z = Ok (signers, err, tot, e)"
    by (cases z) auto
  from c ok have v: "signers 7 = Some \<lparr>Sign = 1, Reward = 0\<rparr>" "signers 8 = None"
    "signers 9 = None" "err = None" "tot = 1"
    by simp_all
  have run: "GetRewardForCheckpoint toyEngine () (toyChainWithout 0) toyHeader 3 0
        = Some (Ok (signers, None, 1, ()))"
    using z ok v by simp
  have w: "rewardWindow toyHeader 3 = [19, 20, 21]" by code_simp
  have f: "filter (eligible (toyChainWithout 0) toyEngine 10) (rewardWindow toyHeader 3) = [20, 21]"
    by code_simp
  from GetRewardForCheckpoint_window [OF run]
  have "set (rewardWindow toyHeader 3)
          = {i. prevCheckpointOf toyHeader 3 + 1 \<le> i \<and> i \<le> prevCheckpointOf toyHeader 3 + 3}"
    by blast
  with run v w f show ?thesis by blast
qed

section \<open>Reward distribution\<close>

lemma GetRewardBalancesRate_foundation:
  "GetRewardBalancesRate c foundationWalletAddr state masterAddr totalReward blockNumber
     foundationWalletAddr = Some ((totalReward * RewardFoundationPercent c) div 100)"
  by (simp add: GetRewardBalancesRate_def Let_def split: prod.splits)

text \<open>
  Without voters: the tier share is stored under the masternode address, and an owner who
  is neither the masternode nor the foundation wallet has no balance.
\<close>

lemma GetRewardBalancesRate_master:
  "masterAddr \<noteq> foundationWalletAddr \<Longrightarrow> GetVoters state masterAddr = [] \<Longrightarrow>
   GetRewardBalancesRate c foundationWalletAddr state masterAddr totalReward blockNumber masterAddr
     = Some ((totalReward * (if GetCandidateCap state masterAddr = 50000000000000000000000
                             then 50 else 40)) div 100)"
  by (simp add: GetRewardBalancesRate_def Let_def targetValue_def RewardMasterPercent_def
      RewardSyncPercent_def)

lemma GetRewardBalancesRate_owner:
  "GetCandidatesOwnerBySigner state masterAddr \<noteq> masterAddr \<Longrightarrow>
   GetCandidatesOwnerBySigner state masterAddr \<noteq> foundationWalletAddr \<Longrightarrow>
   GetVoters state masterAddr = [] \<Longrightarrow>
   GetRewardBalancesRate c foundationWalletAddr state masterAddr totalReward blockNumber
     (GetCandidatesOwnerBySigner state masterAddr) = None"
  by (simp add: GetRewardBalancesRate_def Let_def)

text \<open>
  C1. The owner of the masternode is to be paid 50% of totalReward when the stake cap is
  exactly 50000000000000000000000 and 40% otherwise. The function keys that share by the
  masternode address itself: at a state where masternode 1 has the full cap, owner 2 and no
  voters, with foundation wallet 9 and a foundation share of 10%, the balances of a reward
  of 1000 are 500 for the masternode and 100 for the foundation, and nothing for the owner.
\<close>

theorem GetRewardBalancesRate_owner_unpaid:
  "GetCandidatesOwnerBySigner
      \<lparr>GetCandidateOwner = (\<lambda>a. 2), GetCandidateCap = (\<lambda>a. 50000000000000000000000),
       GetVoters = (\<lambda>a. []), GetVoterCap = (\<lambda>a b. 0)\<rparr> 1 = 2
   \<and> GetRewardBalancesRate
      \<lparr>RewardVoterPercent = 0, RewardFoundationPercent = 10, TIP2019Block = 1\<rparr> 9
      \<lparr>GetCandidateOwner = (\<lambda>a. 2), GetCandidateCap = (\<lambda>a. 50000000000000000000000),
       GetVoters = (\<lambda>a. []), GetVoterCap = (\<lambda>a b. 0)\<rparr> 1 1000 5
     = [1 \<mapsto> 500, 9 \<mapsto> 100]
   \<and> GetRewardBalancesRate
      \<lparr>RewardVoterPercent = 0, RewardFoundationPercent = 10, TIP2019Block = 1\<rparr> 9
      \<lparr>GetCandidateOwner = (\<lambda>a. 2), GetCandidateCap = (\<lambda>a. 50000000000000000000000),
       GetVoters = (\<lambda>a. []), GetVoterCap = (\<lambda>a b. 0)\<rparr> 1 1000 5 2 = None"
  by (simp add: GetRewardBalancesRate_def GetCandidatesOwnerBySigner_def targetValue_def
      RewardMasterPercent_def RewardSyncPercent_def)

text \<open>
  C10. When the foundation wallet is the masternode address, the returned map binds that
  address to the foundation share alone: the last assignment replaces the 40%/50% share
  (and any voter share) stored under the masternode address before.
\<close>

theorem GetRewardBalancesRate_foundation_overwrites:
  "foundationWalletAddr = masterAddr \<Longrightarrow>
   GetRewardBalancesRate c foundationWalletAddr state masterAddr totalReward blockNumber masterAddr
     = Some ((totalReward * RewardFoundationPercent c) div 100)"
  by (simp add: GetRewardBalancesRate_def Let_def split: prod.splits)

theorem GetRewardBalancesRate_foundation_overwrites_witness:
  "(1::address) = 1 \<and>
   GetRewardBalancesRate
      \<lparr>RewardVoterPercent = 0, RewardFoundationPercent = 10, TIP2019Block = 1\<rparr> 1
      \<lparr>GetCandidateOwner = (\<lambda>a. 2), GetCandidateCap = (\<lambda>a. 50000000000000000000000),
       GetVoters = (\<lambda>a. [3]), GetVoterCap = (\<lambda>a b. 7)\<rparr> 1 1000 5 1 = Some 100"
  using GetRewardBalancesRate_foundation_overwrites
    [of 1 1 "\<lparr>RewardVoterPercent = 0, RewardFoundationPercent = 10, TIP2019Block = 1\<rparr>"
        "\<lparr>GetCandidateOwner = (\<lambda>a. 2), GetCandidateCap = (\<lambda>a. 50000000000000000000000),
          GetVoters = (\<lambda>a. [3]), GetVoterCap = (\<lambda>a b. 7)\<rparr>" 1000 5]
  by simp

end
